theory Spec2Isabelle
  imports Main "HOL-Library.Word"
begin

unbundle bit_operations_syntax

section \<open>The output stream\<close>

text \<open>
  The printer of \<^verbatim>\<open>printer/yang.c\<close> writes to a \<^verbatim>\<open>FILE *\<close> with \<^verbatim>\<open>fprintf\<close> and
  \<^verbatim>\<open>fwrite\<close> and discards the value each of these calls returns. The stream is a record:
  the bytes the destination has accepted, the number of bytes it still accepts
  (\<open>None\<close>: no limit) and the error indicator of the stream. A write that does not fit is
  refused as a whole and sets the error indicator; the stream stays usable, as in C.
\<close>

record FILE =
  out :: string
  room :: "nat option"
  error :: bool

definition fprintf :: "FILE \<Rightarrow> string \<Rightarrow> FILE" where
  "fprintf f s =
     (case room f of
        None \<Rightarrow> f\<lparr>out := out f @ s\<rparr>
      | Some n \<Rightarrow>
          if length s \<le> n then f\<lparr>out := out f @ s, room := Some (n - length s)\<rparr>
          else f\<lparr>error := True\<rparr>)"

definition fwrite :: "FILE \<Rightarrow> string \<Rightarrow> FILE" where
  "fwrite f s = fprintf f s"

text \<open>
  \<^verbatim>\<open>#define INDENT ""\<close> and \<^verbatim>\<open>#define LEVEL (level*2)\<close>; the conversion \<^verbatim>\<open>%*s\<close> with the
  arguments \<^verbatim>\<open>LEVEL, INDENT\<close> pads the string on the left with blanks up to the width.
  The level starts at 0 in \<^verbatim>\<open>yang_print_model\<close> and is only ever incremented before a
  nested call, so it is a natural number.
\<close>

definition INDENT :: string where
  "INDENT = []"

definition LEVEL :: "nat \<Rightarrow> nat" where
  "LEVEL level = level * 2"

definition pad :: "nat \<Rightarrow> string \<Rightarrow> string" where
  "pad w s = replicate (w - length s) CHR '' '' @ s"

text \<open>The conversion \<^verbatim>\<open>%d\<close>.\<close>

fun digits :: "nat \<Rightarrow> string" where
  "digits n =
     (if n < 10 then [''0123456789'' ! n]
      else digits (n div 10) @ [''0123456789'' ! (n mod 10)])"

definition decimal :: "int \<Rightarrow> string" where
  "decimal i = (if i < 0 then ''-'' @ digits (nat (- i)) else digits (nat i))"

text \<open>\<^verbatim>\<open>strchr\<close>: the offset of the first occurrence of the character, if there is one.\<close>

fun strchr :: "string \<Rightarrow> char \<Rightarrow> nat option" where
  "strchr [] c = None"
| "strchr (x # xs) c = (if x = c then Some 0 else map_option Suc (strchr xs c))"

definition EXIT_SUCCESS :: int where
  "EXIT_SUCCESS = 0"

section \<open>The schema tree\<close>

text \<open>
  The header \<^verbatim>\<open>tree.h\<close>, which declares the flag constants, the node kinds and the
  structures, is not among the sources. Its constants are a parameter of every function
  that uses one: the record \<open>tree_h\<close> holds their values.
\<close>

record tree_h =
  LY_NODE_CONFIG_W :: "8 word"
  LY_NODE_CONFIG_R :: "8 word"
  LY_NODE_CONFIG_MASK :: "8 word"
  LY_NODE_STATUS_CURR :: "8 word"
  LY_NODE_STATUS_DEPRC :: "8 word"
  LY_NODE_STATUS_OBSLT :: "8 word"
  LY_NODE_CONTAINER :: "32 word"
  LY_NODE_CHOICE :: "32 word"
  LY_NODE_LEAF :: "32 word"
  LY_NODE_LEAFLIST :: "32 word"
  LY_NODE_LIST :: "32 word"
  LY_NODE_USES :: "32 word"
  LY_NODE_GROUPING :: "32 word"

text \<open>
  Modelled from the spec: the structures of \<^verbatim>\<open>tree.h\<close>, with the members the printer reads.

  A pointer to a module or submodule is the address it holds together with the members read
  through it (\<^verbatim>\<open>->name\<close>, \<^verbatim>\<open>->prefix\<close>); two such pointers are compared by address.
\<close>

record ly_module_ref =
  addr :: nat
  mod_name :: string
  mod_prefix :: string

text \<open>
  \<^verbatim>\<open>yang_print_mnode_common\<close> is applied to nodes, typedefs, identities and enum entries, each
  cast to \<^verbatim>\<open>struct ly_mnode *\<close>: they start with the same members, which are the record
  \<open>ly_common\<close>; the other structures extend it.
\<close>

record ly_common =
  name :: string
  dsc :: "string option"
  ref :: "string option"
  flags :: "8 word"

record ly_type_enum = ly_common +
  enum_value :: int

record ly_owned = ly_common +
  module :: ly_module_ref

text \<open>
  \<^verbatim>\<open>struct ly_type\<close>: \<^verbatim>\<open>base\<close> selects the member of the union \<^verbatim>\<open>info\<close>, so both are one
  datatype. \<^verbatim>\<open>der\<close> points to the typedef the type is derived from and
  \<^verbatim>\<open>info.ident.ref\<close> to an identity; a pointer to either is the \<open>ly_owned\<close> part of
  its target (name and owning module).
\<close>

datatype ly_type_info =
    LY_TYPE_ENUM "ly_type_enum list"
  | LY_TYPE_IDENT ly_owned
  | LY_TYPE_OTHER

record ly_type =
  prefix :: "string option"
  info :: ly_type_info
  der :: ly_owned

record ly_tpdf = ly_owned +
  type :: ly_type

record ly_ident = ly_owned +
  base :: "ly_owned option"

text \<open>
  \<^verbatim>\<open>struct ly_mnode\<close> and the structures it is cast to by \<^verbatim>\<open>nodetype\<close>
  (\<^verbatim>\<open>ly_mnode_container\<close>, \<^verbatim>\<open>ly_mnode_leaf\<close>, \<^verbatim>\<open>ly_mnode_leaflist\<close>, \<^verbatim>\<open>ly_mnode_list\<close>,
  \<^verbatim>\<open>ly_mnode_grp\<close>, \<^verbatim>\<open>ly_mnode_uses\<close>). One record carries the members of all of them and
  each printer reads those of the structure it casts to. The back-reference \<^verbatim>\<open>parent\<close> is
  the common part of the node it points to (\<open>None\<close>: the null pointer of a root node), and
  \<^verbatim>\<open>keys\<close> the common parts of the key leaves. The children, linked by \<^verbatim>\<open>next\<close> in C and
  walked by \<^verbatim>\<open>LY_TREE_FOR\<close>, are a list.
\<close>

record ly_node = ly_owned +
  nodetype :: "32 word"
  parent :: "ly_common option"
  tpdf :: "ly_tpdf list"
  leaf_type :: ly_type
  keys :: "ly_common list"

datatype ly_mnode = Mnode (node: ly_node) (child: "ly_mnode list")

record ly_import =
  imp_module :: ly_module_ref
  imp_prefix :: string
  imp_rev :: string

record ly_include =
  inc_submodule :: ly_module_ref
  inc_rev :: string

record ly_revision =
  date :: string
  rev_dsc :: "string option"
  rev_ref :: "string option"

record ly_module =
  self :: ly_module_ref
  ns :: string
  version :: "8 word"
  imp :: "ly_import list"
  inc :: "ly_include list"
  org :: "string option"
  contact :: "string option"
  module_dsc :: "string option"
  module_ref :: "string option"
  rev :: "ly_revision list"
  ident :: "ly_ident list"
  module_tpdf :: "ly_tpdf list"
  data :: "ly_mnode list"

section \<open>The printer\<close>

subsection \<open>\<^verbatim>\<open>yang_print_text\<close>\<close>

function yang_print_text_loop :: "FILE \<Rightarrow> nat \<Rightarrow> string \<Rightarrow> FILE \<times> string" where
  "yang_print_text_loop f level t =
     (case strchr t CHR ''\<newline>'' of
        None \<Rightarrow> (f, t)
      | Some s \<Rightarrow>
          (let f = fwrite f (take (s + 1) t);
               t = drop (s + 1) t;
               f = fprintf f (pad (LEVEL level) INDENT)
           in yang_print_text_loop f level t))"
  by pat_completeness auto
termination
proof (relation "measure (\<lambda>(f, level, t). length t)")
  show "wf (measure (\<lambda>(f, level, t). length t))"
    by simp
next
  fix f :: FILE and level :: nat and t :: string and s x xa xb
  assume "strchr t CHR ''\<newline>'' = Some s" and "xa = drop (s + 1) t"
  moreover have "strchr t c = Some s \<Longrightarrow> s < length t" for c
    by (induction t arbitrary: s) (auto split: if_splits)
  ultimately show "((xb, level, xa), (f, level, t)) \<in> measure (\<lambda>(f, level, t). length t)"
    by fastforce
qed

definition yang_print_text :: "FILE \<Rightarrow> nat \<Rightarrow> string \<Rightarrow> string \<Rightarrow> FILE" where
  \<open>yang_print_text f level name' text =
     (let f = fprintf f (pad (LEVEL level) INDENT @ name' @ ''\<newline>'');
          level = level + 1;
          f = fprintf f (pad (LEVEL level) INDENT @ ''"'');
          (f, t) = yang_print_text_loop f level text;
          f = fprintf f (t @ ''";\<newline>\<newline>'')
      in f)\<close>

subsection \<open>Common members: status, description, reference, config\<close>

definition yang_print_mnode_common ::
    "tree_h \<Rightarrow> FILE \<Rightarrow> nat \<Rightarrow> 'a ly_common_scheme \<Rightarrow> FILE" where
  \<open>yang_print_mnode_common H f level mnode =
     (let f = (if flags mnode AND LY_NODE_STATUS_CURR H \<noteq> 0 then
                 fprintf f (pad (LEVEL level) INDENT @ ''status "current";\<newline>'')
               else if flags mnode AND LY_NODE_STATUS_DEPRC H \<noteq> 0 then
                 fprintf f (pad (LEVEL level) INDENT @ ''status "deprecated";\<newline>'')
               else if flags mnode AND LY_NODE_STATUS_OBSLT H \<noteq> 0 then
                 fprintf f (pad (LEVEL level) INDENT @ ''status "obsolete";\<newline>'')
               else f);
          f = (case dsc mnode of
                 Some d \<Rightarrow> yang_print_text f level ''description'' d
               | None \<Rightarrow> f);
          f = (case ref mnode of
                 Some r \<Rightarrow> yang_print_text f level ''reference'' r
               | None \<Rightarrow> f)
      in f)\<close>

definition yang_print_mnode_common2 ::
    "tree_h \<Rightarrow> FILE \<Rightarrow> nat \<Rightarrow> ly_node \<Rightarrow> FILE" where
  \<open>yang_print_mnode_common2 H f level mnode =
     (let f = (if (case parent mnode of
                     None \<Rightarrow> True
                   | Some p \<Rightarrow> flags p AND LY_NODE_CONFIG_MASK H
                                \<noteq> flags mnode AND LY_NODE_CONFIG_MASK H) then
                 (if flags mnode AND LY_NODE_CONFIG_W H \<noteq> 0 then
                    fprintf f (pad (LEVEL level) INDENT @ ''config "true";\<newline>'')
                  else if flags mnode AND LY_NODE_CONFIG_R H \<noteq> 0 then
                    fprintf f (pad (LEVEL level) INDENT @ ''config "false";\<newline>'')
                  else f)
               else f)
      in yang_print_mnode_common H f level mnode)\<close>

subsection \<open>Types, typedefs and identities\<close>

fun yang_print_type_enums :: "tree_h \<Rightarrow> FILE \<Rightarrow> nat \<Rightarrow> ly_type_enum list \<Rightarrow> FILE" where
  "yang_print_type_enums H f level [] = f"
| "yang_print_type_enums H f level (e # es) =
     (let f = fprintf f (pad (LEVEL level) INDENT @ ''enum '' @ name e @ '' {\<newline>'');
          f = yang_print_mnode_common H f (level + 1) e;
          f = fprintf f (pad (LEVEL (level + 1)) INDENT @ ''value '' @ decimal (enum_value e)
                           @ '';\<newline>'');
          f = fprintf f (pad (LEVEL level) INDENT @ ''}\<newline>'')
      in yang_print_type_enums H f level es)"

definition yang_print_type ::
    "tree_h \<Rightarrow> FILE \<Rightarrow> nat \<Rightarrow> ly_module_ref \<Rightarrow> ly_type \<Rightarrow> FILE" where
  "yang_print_type H f level module' type' =
     (let f = (case prefix type' of
                 Some p \<Rightarrow>
                   fprintf f (pad (LEVEL level) INDENT @ ''type '' @ p @ '':'' @ name (der type')
                                @ '' {\<newline>'')
               | None \<Rightarrow>
                   fprintf f (pad (LEVEL level) INDENT @ ''type '' @ name (der type')
                                @ '' {\<newline>''));
          f = (case info type' of
                 LY_TYPE_ENUM enums \<Rightarrow> yang_print_type_enums H f (level + 1) enums
               | LY_TYPE_IDENT r \<Rightarrow>
                   if addr module' = addr (module r) then
                     fprintf f (pad (LEVEL (level + 1)) INDENT @ ''base '' @ name r @ '';\<newline>'')
                   else
                     fprintf f (pad (LEVEL (level + 1)) INDENT @ ''base '' @ mod_prefix (module r)
                                  @ '':'' @ name r @ '';\<newline>'')
               | LY_TYPE_OTHER \<Rightarrow> f)
      in fprintf f (pad (LEVEL level) INDENT @ ''}\<newline>''))"

definition yang_print_typedef ::
    "tree_h \<Rightarrow> FILE \<Rightarrow> nat \<Rightarrow> ly_module_ref \<Rightarrow> ly_tpdf \<Rightarrow> FILE" where
  "yang_print_typedef H f level module' tpdf' =
     (let f = fprintf f (pad (LEVEL level) INDENT @ ''typedef '' @ name tpdf' @ '' {\<newline>'');
          f = yang_print_mnode_common H f (level + 1) tpdf';
          f = yang_print_type H f (level + 1) module' (type tpdf')
      in fprintf f (pad (LEVEL level) INDENT @ ''}\<newline>''))"

definition yang_print_identity :: "tree_h \<Rightarrow> FILE \<Rightarrow> nat \<Rightarrow> ly_ident \<Rightarrow> FILE" where
  "yang_print_identity H f level ident' =
     (let f = fprintf f (pad (LEVEL level) INDENT @ ''identity '' @ name ident' @ '' {\<newline>'');
          f = yang_print_mnode_common H f (level + 1) ident';
          f = (case base ident' of
                 Some b \<Rightarrow>
                   if addr (module b) = addr (module ident') then
                     fprintf f (pad (LEVEL (level + 1)) INDENT @ ''base '' @ name b @ '';\<newline>'')
                   else
                     fprintf f (pad (LEVEL (level + 1)) INDENT @ ''base '' @ mod_prefix (module b)
                                  @ '':'' @ name b @ '';\<newline>'')
               | None \<Rightarrow> f)
      in fprintf f (pad (LEVEL level) INDENT @ ''}\<newline>''))"

subsection \<open>Nodes\<close>

definition yang_print_leaf :: "tree_h \<Rightarrow> FILE \<Rightarrow> nat \<Rightarrow> ly_mnode \<Rightarrow> FILE" where
  "yang_print_leaf H f level mnode =
     (let f = fprintf f (pad (LEVEL level) INDENT @ ''leaf '' @ name (node mnode) @ '' {\<newline>'');
          f = yang_print_mnode_common2 H f (level + 1) (node mnode);
          f = yang_print_type H f (level + 1) (module (node mnode)) (leaf_type (node mnode))
      in fprintf f (pad (LEVEL level) INDENT @ ''}\<newline>''))"

definition yang_print_leaflist :: "tree_h \<Rightarrow> FILE \<Rightarrow> nat \<Rightarrow> ly_mnode \<Rightarrow> FILE" where
  "yang_print_leaflist H f level mnode =
     (let f = fprintf f (pad (LEVEL level) INDENT @ ''leaf-list '' @ name (node mnode)
                           @ '' {\<newline>'');
          f = yang_print_mnode_common2 H f (level + 1) (node mnode);
          f = yang_print_type H f (level + 1) (module (node mnode)) (leaf_type (node mnode))
      in fprintf f (pad (LEVEL level) INDENT @ ''}\<newline>''))"

definition yang_print_uses :: "tree_h \<Rightarrow> FILE \<Rightarrow> nat \<Rightarrow> ly_mnode \<Rightarrow> FILE" where
  "yang_print_uses H f level mnode =
     (let f = fprintf f (pad (LEVEL level) INDENT @ ''uses '' @ name (node mnode) @ '' {\<newline>'');
          f = yang_print_mnode_common H f (level + 1) (node mnode)
      in fprintf f (pad (LEVEL level) INDENT @ ''}\<newline>''))"

text \<open>The loop over the keys of a list, with its index.\<close>

function yang_print_list_keys :: "FILE \<Rightarrow> ly_common list \<Rightarrow> nat \<Rightarrow> FILE" where
  "yang_print_list_keys f ks i =
     (if i < length ks then
        yang_print_list_keys
          (fprintf f (name (ks ! i) @ (if i + 1 < length ks then '' '' else []))) ks (i + 1)
      else f)"
  by pat_completeness auto
termination
  by (relation "measure (\<lambda>(f, ks, i). length ks - i)") auto

text \<open>
  The set of node kinds allowed below a container, a list, a grouping and at the top of a
  module, and the one allowed below a choice.
\<close>

definition mask_all :: "tree_h \<Rightarrow> 32 word" where
  "mask_all H = LY_NODE_CHOICE H OR LY_NODE_CONTAINER H OR LY_NODE_LEAF H OR LY_NODE_LEAFLIST H
                  OR LY_NODE_LIST H OR LY_NODE_USES H OR LY_NODE_GROUPING H"

definition mask_choice :: "tree_h \<Rightarrow> 32 word" where
  "mask_choice H = LY_NODE_CONTAINER H OR LY_NODE_LEAF H OR LY_NODE_LEAFLIST H OR LY_NODE_LIST H"

function (sequential) yang_print_mnode :: "tree_h \<Rightarrow> FILE \<Rightarrow> nat \<Rightarrow> ly_mnode \<Rightarrow> 32 word \<Rightarrow> FILE"
  and yang_print_container :: "tree_h \<Rightarrow> FILE \<Rightarrow> nat \<Rightarrow> ly_mnode \<Rightarrow> FILE"
  and yang_print_choice :: "tree_h \<Rightarrow> FILE \<Rightarrow> nat \<Rightarrow> ly_mnode \<Rightarrow> FILE"
  and yang_print_list :: "tree_h \<Rightarrow> FILE \<Rightarrow> nat \<Rightarrow> ly_mnode \<Rightarrow> FILE"
  and yang_print_grouping :: "tree_h \<Rightarrow> FILE \<Rightarrow> nat \<Rightarrow> ly_mnode \<Rightarrow> FILE"
where
  "yang_print_mnode H f level (Mnode n ch) mask' =
     (let t = nodetype n AND mask' in
      if t = LY_NODE_CONTAINER H then yang_print_container H f level (Mnode n ch)
      else if t = LY_NODE_CHOICE H then yang_print_choice H f level (Mnode n ch)
      else if t = LY_NODE_LEAF H then yang_print_leaf H f level (Mnode n ch)
      else if t = LY_NODE_LEAFLIST H then yang_print_leaflist H f level (Mnode n ch)
      else if t = LY_NODE_LIST H then yang_print_list H f level (Mnode n ch)
      else if t = LY_NODE_USES H then yang_print_uses H f level (Mnode n ch)
      else if t = LY_NODE_GROUPING H then yang_print_grouping H f level (Mnode n ch)
      else f)"
| "yang_print_container H f level (Mnode n ch) =
     (let f = fprintf f (pad (LEVEL level) INDENT @ ''container '' @ name n @ '' {\<newline>'');
          f = yang_print_mnode_common2 H f (level + 1) n;
          f = fold (\<lambda>t f. yang_print_typedef H f (level + 1) (module n) t) (tpdf n) f;
          f = fold (\<lambda>sub f. yang_print_mnode H f (level + 1) sub (mask_all H)) ch f
      in fprintf f (pad (LEVEL level) INDENT @ ''}\<newline>''))"
| "yang_print_choice H f level (Mnode n ch) =
     (let f = fprintf f (pad (LEVEL level) INDENT @ ''choice '' @ name n @ '' {\<newline>'');
          f = yang_print_mnode_common2 H f (level + 1) n;
          f = fold (\<lambda>sub f. yang_print_mnode H f (level + 1) sub (mask_choice H)) ch f
      in fprintf f (pad (LEVEL level) INDENT @ ''}\<newline>''))"
| \<open>yang_print_list H f level (Mnode n ch) =
     (let f = fprintf f (pad (LEVEL level) INDENT @ ''list '' @ name n @ '' {\<newline>'');
          f = yang_print_mnode_common2 H f (level + 1) n;
          f = (if length (keys n) \<noteq> 0 then
                 (let f = fprintf f (pad (LEVEL (level + 1)) INDENT @ ''key "'');
                      f = yang_print_list_keys f (keys n) 0
                  in fprintf f ''";\<newline>'')
               else f);
          f = fold (\<lambda>t f. yang_print_typedef H f (level + 1) (module n) t) (tpdf n) f;
          f = fold (\<lambda>sub f. yang_print_mnode H f (level + 1) sub (mask_all H)) ch f
      in fprintf f (pad (LEVEL level) INDENT @ ''}\<newline>''))\<close>
| "yang_print_grouping H f level (Mnode n ch) =
     (let f = fprintf f (pad (LEVEL level) INDENT @ ''grouping '' @ name n @ '' {\<newline>'');
          f = yang_print_mnode_common H f (level + 1) n;
          f = fold (\<lambda>t f. yang_print_typedef H f (level + 1) (module n) t) (tpdf n) f;
          f = fold (\<lambda>sub f. yang_print_mnode H f (level + 1) sub (mask_all H)) ch f
      in fprintf f (pad (LEVEL level) INDENT @ ''}\<newline>''))"
  by pat_completeness auto
termination
proof -
  have sz: "x \<in> set ch \<Longrightarrow> 2 * size x + 1 < 2 * size (Mnode n ch)" for x n ch
    using size_list_estimation' [of x ch "size x" size] by simp
  show ?thesis
    apply (relation "measure (\<lambda>x. case x of
        Inl (Inl (H, f, level, m, k)) \<Rightarrow> 2 * size m + 1
      | Inl (Inr (H, f, level, m)) \<Rightarrow> 2 * size m
      | Inr (Inl (H, f, level, m)) \<Rightarrow> 2 * size m
      | Inr (Inr (Inl (H, f, level, m))) \<Rightarrow> 2 * size m
      | Inr (Inr (Inr (H, f, level, m))) \<Rightarrow> 2 * size m)")
    apply (simp_all only: in_measure sum.case prod.case wf_measure less_add_one sz)
    done
qed

subsection \<open>The module\<close>

text \<open>
  The loop over the includes reads \<^verbatim>\<open>module->imp[i].rev\<close> at the index of the include. The
  array \<^verbatim>\<open>imp\<close> has \<^verbatim>\<open>imp_size\<close> elements; a read past its end is undefined in C and is
  the error \<open>Out_of_bounds\<close> here.
\<close>

datatype error = Out_of_bounds

fun yang_print_model_imports :: "FILE \<Rightarrow> nat \<Rightarrow> ly_import list \<Rightarrow> FILE" where
  \<open>yang_print_model_imports f level [] = f\<close>
| \<open>yang_print_model_imports f level (i # is) =
     (let f = fprintf f (pad (LEVEL level) INDENT @ ''import "'' @ mod_name (imp_module i)
                           @ ''" {\<newline>'');
          f = yang_print_text f (level + 1) ''prefix'' (imp_prefix i);
          f = (if imp_rev i \<noteq> [] then
                 yang_print_text f (level + 1) ''revision-date'' (imp_rev i)
               else f);
          f = fprintf f (pad (LEVEL level) INDENT @ ''}\<newline>'')
      in yang_print_model_imports f level is)\<close>

function yang_print_model_includes ::
    "FILE \<Rightarrow> nat \<Rightarrow> ly_module \<Rightarrow> nat \<Rightarrow> error + FILE" where
  \<open>yang_print_model_includes f level module' i =
     (if i < length (inc module') then
        (if inc_rev (inc module' ! i) \<noteq> [] then
           (if i < length (imp module') then
              (let f = fprintf f (pad (LEVEL level) INDENT @ ''include "''
                                    @ mod_name (inc_submodule (inc module' ! i)) @ ''" {\<newline>'');
                   f = yang_print_text f (level + 1) ''revision-date''
                         (imp_rev (imp module' ! i));
                   f = fprintf f (pad (LEVEL level) INDENT @ ''}\<newline>'')
               in yang_print_model_includes f level module' (i + 1))
            else Inl Out_of_bounds)
         else
           (let f = fprintf f (pad (LEVEL level) INDENT @ ''include "''
                                 @ mod_name (inc_submodule (inc module' ! i)) @ ''";\<newline>'')
            in yang_print_model_includes f level module' (i + 1)))
      else Inr f)\<close>
  by pat_completeness auto
termination
  by (relation "measure (\<lambda>(f, level, m, i). length (inc m) - i)") auto

fun yang_print_model_revisions :: "FILE \<Rightarrow> nat \<Rightarrow> ly_revision list \<Rightarrow> FILE" where
  \<open>yang_print_model_revisions f level [] = f\<close>
| \<open>yang_print_model_revisions f level (r # rs) =
     (let f = (if rev_dsc r \<noteq> None \<or> rev_ref r \<noteq> None then
                 (let f = fprintf f (pad (LEVEL level) INDENT @ ''revision "'' @ date r
                                       @ ''" {\<newline>'');
                      f = (case rev_dsc r of
                             Some d \<Rightarrow> yang_print_text f (level + 1) ''description'' d
                           | None \<Rightarrow> f);
                      f = (case rev_ref r of
                             Some d \<Rightarrow> yang_print_text f (level + 1) ''reference'' d
                           | None \<Rightarrow> f)
                  in fprintf f (pad (LEVEL level) INDENT @ ''}\<newline>''))
               else yang_print_text f level ''revision'' (date r))
      in yang_print_model_revisions f level rs)\<close>

definition yang_print_model :: "tree_h \<Rightarrow> FILE \<Rightarrow> ly_module \<Rightarrow> error + int \<times> FILE" where
  \<open>yang_print_model H f module' =
     (let level = 0;
          f = fprintf f (''module '' @ mod_name (self module') @ '' {\<newline>'');
          level = level + 1;
          f = fprintf f (pad (LEVEL level) INDENT @ ''namespace "'' @ ns module' @ ''";\<newline>'');
          f = fprintf f (pad (LEVEL level) INDENT @ ''prefix "'' @ mod_prefix (self module')
                           @ ''";\<newline>'');
          f = (if version module' \<noteq> 0 then
                 fprintf f (pad (LEVEL level) INDENT @ ''yang-version "''
                              @ (if version module' = 1 then ''1.0'' else ''1.1'') @ ''";\<newline>'')
               else f);
          f = yang_print_model_imports f level (imp module')
      in case yang_print_model_includes f level module' 0 of
           Inl e \<Rightarrow> Inl e
         | Inr f \<Rightarrow>
             (let f = (case org module' of
                         Some s \<Rightarrow> yang_print_text f level ''organization'' s
                       | None \<Rightarrow> f);
                  f = (case contact module' of
                         Some s \<Rightarrow> yang_print_text f level ''contact'' s
                       | None \<Rightarrow> f);
                  f = (case module_dsc module' of
                         Some s \<Rightarrow> yang_print_text f level ''description'' s
                       | None \<Rightarrow> f);
                  f = (case module_ref module' of
                         Some s \<Rightarrow> yang_print_text f level ''reference'' s
                       | None \<Rightarrow> f);
                  f = yang_print_model_revisions f level (rev module');
                  f = fold (\<lambda>i f. yang_print_identity H f level i) (ident module') f;
                  f = fold (\<lambda>t f. yang_print_typedef H f level (self module') t)
                        (module_tpdf module') f;
                  f = fold (\<lambda>mnode f. yang_print_mnode H f level mnode (mask_all H))
                        (data module') f;
                  f = fprintf f ''}\<newline>''
              in Inr (EXIT_SUCCESS, f)))\<close>

declare yang_print_text_loop.simps [simp del]
declare yang_print_list_keys.simps [simp del]
declare yang_print_model_includes.simps [simp del]
declare yang_print_mnode.simps [simp del] yang_print_container.simps [simp del]
  yang_print_choice.simps [simp del] yang_print_list.simps [simp del]
  yang_print_grouping.simps [simp del]

section \<open>What is observed of a run\<close>

text \<open>
  A stream without a limit that has accepted nothing yet, and the text a printing step
  \<open>p\<close> leaves on it.
\<close>

definition empty_stream :: FILE where
  "empty_stream = \<lparr>out = [], room = None, error = False\<rparr>"

definition emitted :: "(FILE \<Rightarrow> FILE) \<Rightarrow> string" where
  "emitted p = out (p empty_stream)"

text \<open>
  Handing a stream the fragments \<open>ss\<close> one after the other, each by one write whose result
  is dropped; a printing step is a \<open>writer\<close> when it does this for one list of fragments,
  the same for every stream.
\<close>

definition writes :: "string list \<Rightarrow> FILE \<Rightarrow> FILE" where
  "writes ss f = fold (\<lambda>s f. fprintf f s) ss f"

definition writer :: "(FILE \<Rightarrow> FILE) \<Rightarrow> bool" where
  "writer p = (\<exists>ss. \<forall>f. p f = writes ss f)"

text \<open>
  The specification of the text printer: the body of a text field keeps every line break,
  and every line break is followed by the indentation of the body.
\<close>

fun reindented :: "nat \<Rightarrow> string \<Rightarrow> string" where
  "reindented level [] = []"
| "reindented level (c # cs) =
     (if c = CHR ''\<newline>'' then c # pad (LEVEL level) INDENT @ reindented level cs
      else c # reindented level cs)"

text \<open>The specification of the key statement: the names, separated by one blank.\<close>

fun space_separated :: "string list \<Rightarrow> string" where
  "space_separated [] = []"
| "space_separated [x] = x"
| "space_separated (x # y # ys) = x @ '' '' @ space_separated (y # ys)"

text \<open>A text is a single line when its only line break is its last character.\<close>

definition single_line :: "string \<Rightarrow> bool" where
  "single_line s = (s \<noteq> [] \<and> last s = CHR ''\<newline>'' \<and> CHR ''\<newline>'' \<notin> set (butlast s))"

text \<open>
  The example block of the specification for the description \<^verbatim>\<open>"line1\nline2"\<close> at level 2,
  as it is written there, with \<open>k\<close> of its leading columns removed (the block is nested in a
  list item, which indents it by two columns).
\<close>

definition spec_example_block :: "nat \<Rightarrow> string" where
  \<open>spec_example_block k =
     replicate (6 - k) CHR '' '' @ ''description\<newline>''
     @ replicate (10 - k) CHR '' '' @ ''"line1\<newline>''
     @ replicate (10 - k) CHR '' '' @ ''line2";\<newline>''\<close>

text \<open>
  The node kinds are flags: each is a bit of its own. (That the seven are different values
  is what makes them legal labels of one \<^verbatim>\<open>switch\<close>.)
\<close>

fun disjoint_bits :: "32 word list \<Rightarrow> bool" where
  "disjoint_bits [] = True"
| "disjoint_bits (x # xs) = (x \<noteq> 0 \<and> list_all (\<lambda>y. x AND y = 0) xs \<and> disjoint_bits xs)"

definition node_kinds :: "tree_h \<Rightarrow> 32 word list" where
  "node_kinds H = [LY_NODE_CONTAINER H, LY_NODE_CHOICE H, LY_NODE_LEAF H, LY_NODE_LEAFLIST H,
                   LY_NODE_LIST H, LY_NODE_USES H, LY_NODE_GROUPING H]"

text \<open>
  An instance of the constants, to run the printer on concrete trees: every flag and every
  node kind is a bit of its own, and \<^verbatim>\<open>LY_NODE_CONFIG_MASK\<close> is the two config bits.
\<close>

definition tree_h_bits :: tree_h where
  "tree_h_bits =
     \<lparr>LY_NODE_CONFIG_W = 0x01, LY_NODE_CONFIG_R = 0x02, LY_NODE_CONFIG_MASK = 0x03,
      LY_NODE_STATUS_CURR = 0x04, LY_NODE_STATUS_DEPRC = 0x08, LY_NODE_STATUS_OBSLT = 0x10,
      LY_NODE_CONTAINER = 0x01, LY_NODE_CHOICE = 0x02, LY_NODE_LEAF = 0x04,
      LY_NODE_LEAFLIST = 0x08, LY_NODE_LIST = 0x10, LY_NODE_USES = 0x40,
      LY_NODE_GROUPING = 0x80\<rparr>"

text \<open>
  The scenario of the specification: the module \<^verbatim>\<open>m1\<close> with namespace \<^verbatim>\<open>urn:m1\<close> and prefix
  \<^verbatim>\<open>m\<close>, whose only node is the container \<^verbatim>\<open>c1\<close>, writable, with the leaf \<^verbatim>\<open>l1\<close> of type
  \<^verbatim>\<open>string\<close>, whose config is unset. The built-in types belong to no module (address 0).
\<close>

definition m1 :: ly_module_ref where
  "m1 = \<lparr>addr = 1, mod_name = ''m1'', mod_prefix = ''m''\<rparr>"

definition no_module :: ly_module_ref where
  "no_module = \<lparr>addr = 0, mod_name = [], mod_prefix = []\<rparr>"

definition string_type :: ly_type where
  "string_type =
     \<lparr>prefix = None, info = LY_TYPE_OTHER,
      der = \<lparr>name = ''string'', dsc = None, ref = None, flags = 0, module = no_module\<rparr>\<rparr>"

definition leaf_l1 :: ly_mnode where
  "leaf_l1 =
     Mnode \<lparr>name = ''l1'', dsc = None, ref = None, flags = 0, module = m1,
            nodetype = 0x04,
            parent = Some \<lparr>name = ''c1'', dsc = None, ref = None, flags = 0x01\<rparr>,
            tpdf = [], leaf_type = string_type, keys = []\<rparr> []"

definition container_c1 :: ly_mnode where
  "container_c1 =
     Mnode \<lparr>name = ''c1'', dsc = None, ref = None, flags = 0x01, module = m1,
            nodetype = 0x01, parent = None, tpdf = [], leaf_type = string_type, keys = []\<rparr>
       [leaf_l1]"

definition module_m1 :: ly_module where
  "module_m1 =
     \<lparr>self = m1, ns = ''urn:m1'', version = 0, imp = [], inc = [], org = None, contact = None,
      module_dsc = None, module_ref = None, rev = [], ident = [], module_tpdf = [],
      data = [container_c1]\<rparr>"

text \<open>A choice with a grouping and the leaf \<^verbatim>\<open>l1\<close> below it.\<close>

definition grouping_g1 :: ly_mnode where
  "grouping_g1 =
     Mnode \<lparr>name = ''g1'', dsc = None, ref = None, flags = 0, module = m1,
            nodetype = 0x80, parent = None, tpdf = [], leaf_type = string_type, keys = []\<rparr> []"

definition choice_ch1 :: ly_mnode where
  "choice_ch1 =
     Mnode \<lparr>name = ''ch1'', dsc = None, ref = None, flags = 0, module = m1,
            nodetype = 0x02, parent = None, tpdf = [], leaf_type = string_type, keys = []\<rparr>
       [grouping_g1, leaf_l1]"

text \<open>
  The module \<^verbatim>\<open>m1\<close> with one import, of revision 2014-01-01, and one include, of revision
  2015-02-02, and no nodes; and a stream that accepts three more bytes.
\<close>

definition module_inc :: ly_module where
  "module_inc =
     module_m1
       \<lparr>imp := [\<lparr>imp_module = \<lparr>addr = 2, mod_name = ''ietf-a'', mod_prefix = ''a''\<rparr>,
                  imp_prefix = ''a'', imp_rev = ''2014-01-01''\<rparr>],
        inc := [\<lparr>inc_submodule = \<lparr>addr = 3, mod_name = ''m1-sub'', mod_prefix = ''m''\<rparr>,
                  inc_rev = ''2015-02-02''\<rparr>],
        data := []\<rparr>"

definition small_stream :: FILE where
  "small_stream = \<lparr>out = [], room = Some 3, error = False\<rparr>"

section \<open>Streams without a limit\<close>

lemma fprintf_unbounded: "room f = None \<Longrightarrow> fprintf f s = f\<lparr>out := out f @ s\<rparr>"
  by (simp add: fprintf_def)

lemma pad_step: "replicate (numeral w) c = c # replicate (pred_numeral w) c"
  unfolding numeral_eq_Suc by simp

lemmas eval_simps =
  empty_stream_def emitted_def pad_def LEVEL_def INDENT_def pad_step fprintf_def
  fwrite_def tree_h_bits_def m1_def no_module_def string_type_def leaf_l1_def container_c1_def
  module_m1_def

subsection \<open>The text printer\<close>

lemma strchr_None: "strchr t c = None \<Longrightarrow> c \<notin> set t"
  by (induction t) (auto split: if_splits)

lemma reindented_no_newline: "CHR ''\<newline>'' \<notin> set t \<Longrightarrow> reindented level t = t"
  by (induction t) auto

lemma reindented_strchr:
  "strchr t CHR ''\<newline>'' = Some s \<Longrightarrow>
     reindented level t
       = take (s + 1) t @ pad (LEVEL level) INDENT @ reindented level (drop (s + 1) t)"
  by (induction t arbitrary: s) (auto split: if_splits)

lemma yang_print_text_loop_unbounded:
  "room f = None \<Longrightarrow>
     (case yang_print_text_loop f level t of
        (f', b) \<Rightarrow> f' = f\<lparr>out := out f'\<rparr> \<and> out f' @ b = out f @ reindented level t)"
proof (induction f level t rule: yang_print_text_loop.induct)
  case (1 f level t)
  show ?case
  proof (cases "strchr t CHR ''\<newline>''")
    case None
    then show ?thesis
      using strchr_None [OF None]
      by (subst yang_print_text_loop.simps) (simp add: reindented_no_newline)
  next
    case (Some s)
    let ?f = "fprintf (fwrite f (take (s + 1) t)) (pad (LEVEL level) INDENT)"
    have r: "room ?f = None"
      using "1.prems" by (simp add: fwrite_def fprintf_unbounded)
    have f: "?f = f\<lparr>out := out f @ take (s + 1) t @ pad (LEVEL level) INDENT\<rparr>"
      using "1.prems" by (simp add: fwrite_def fprintf_unbounded)
    obtain f' b where fb: "yang_print_text_loop ?f level (drop (s + 1) t) = (f', b)"
      by (cases "yang_print_text_loop ?f level (drop (s + 1) t)")
    from "1.IH" [OF Some refl refl refl r] fb
    have ih: "f' = ?f\<lparr>out := out f'\<rparr>"
      "out f' @ b = out ?f @ reindented level (drop (s + 1) t)"
      by simp_all
    have 1: "yang_print_text_loop f level t = (f', b)"
      using fb by (subst yang_print_text_loop.simps) (simp add: Some Let_def)
    have 2: "f' = f\<lparr>out := out f'\<rparr>"
      by (subst ih(1), subst f) simp
    have 3: "out f' @ b = out f @ reindented level t"
      using ih(2) f by (simp add: reindented_strchr [OF Some])
    show ?thesis
      using 1 2 3 by simp
  qed
qed

lemma yang_print_text_unbounded:
  assumes r: "room f = None"
  shows "yang_print_text f level nm t =
           f\<lparr>out := out f @ pad (LEVEL level) INDENT @ nm @ ''\<newline>''
                   @ pad (LEVEL (level + 1)) INDENT @ [CHR 0x22] @ reindented (level + 1) t
                   @ [CHR 0x22] @ '';\<newline>\<newline>''\<rparr>"
proof -
  let ?f = "fprintf (fprintf f (pad (LEVEL level) INDENT @ nm @ ''\<newline>''))
              (pad (LEVEL (level + 1)) INDENT @ [CHR 0x22])"
  have f: "?f = f\<lparr>out := out f @ pad (LEVEL level) INDENT @ nm @ ''\<newline>''
                          @ pad (LEVEL (level + 1)) INDENT @ [CHR 0x22]\<rparr>"
    using r by (simp add: fprintf_unbounded)
  have rf: "room ?f = None"
    using r by (simp add: fprintf_unbounded)
  obtain f' b where fb: "yang_print_text_loop ?f (level + 1) t = (f', b)"
    by (cases "yang_print_text_loop ?f (level + 1) t")
  from yang_print_text_loop_unbounded [OF rf, of "level + 1" t] fb
  have ih: "f' = ?f\<lparr>out := out f'\<rparr>" "out f' @ b = out ?f @ reindented (level + 1) t"
    by simp_all
  have rf': "room f' = None"
    using rf by (subst ih(1)) simp
  have "yang_print_text f level nm t = fprintf f' (b @ [CHR 0x22] @ '';\<newline>\<newline>'')"
    using fb by (simp add: yang_print_text_def Let_def)
  also have "\<dots> = f'\<lparr>out := (out f' @ b) @ [CHR 0x22] @ '';\<newline>\<newline>''\<rparr>"
    using rf' by (simp add: fprintf_unbounded)
  also have "\<dots> = f\<lparr>out := (out f' @ b) @ [CHR 0x22] @ '';\<newline>\<newline>''\<rparr>"
    by (subst ih(1), subst f) simp
  finally show ?thesis
    using ih(2) f by simp
qed

subsection \<open>Every printer appends its text\<close>

lemma appendsI:
  assumes "\<And>g. room g = None \<Longrightarrow> p g = g\<lparr>out := out g @ x\<rparr>"
  shows "room f = None \<Longrightarrow> p f = f\<lparr>out := out f @ emitted p\<rparr>"
proof -
  have "emitted p = x"
    using assms [of empty_stream] by (simp add: emitted_def empty_stream_def)
  then show "room f = None \<Longrightarrow> p f = f\<lparr>out := out f @ emitted p\<rparr>"
    using assms [of f] by simp
qed

lemma yang_print_mnode_common_unbounded:
  \<open>room f = None \<Longrightarrow>
     yang_print_mnode_common H f level m =
       f\<lparr>out := out f
         @ (if flags m AND LY_NODE_STATUS_CURR H \<noteq> 0 then
              pad (LEVEL level) INDENT @ ''status "current";\<newline>''
            else if flags m AND LY_NODE_STATUS_DEPRC H \<noteq> 0 then
              pad (LEVEL level) INDENT @ ''status "deprecated";\<newline>''
            else if flags m AND LY_NODE_STATUS_OBSLT H \<noteq> 0 then
              pad (LEVEL level) INDENT @ ''status "obsolete";\<newline>''
            else [])
         @ (case dsc m of
              Some d \<Rightarrow> emitted (\<lambda>f. yang_print_text f level ''description'' d)
            | None \<Rightarrow> [])
         @ (case ref m of
              Some r \<Rightarrow> emitted (\<lambda>f. yang_print_text f level ''reference'' r)
            | None \<Rightarrow> [])\<rparr>\<close>
  by (simp add: yang_print_mnode_common_def Let_def fprintf_unbounded yang_print_text_unbounded
        emitted_def empty_stream_def split: option.splits)

lemma yang_print_mnode_common_appends:
  "room f = None \<Longrightarrow>
     yang_print_mnode_common H f level m
       = f\<lparr>out := out f @ emitted (\<lambda>f. yang_print_mnode_common H f level m)\<rparr>"
  by (rule appendsI, rule yang_print_mnode_common_unbounded)

lemma yang_print_mnode_common2_unbounded:
  \<open>room f = None \<Longrightarrow>
     yang_print_mnode_common2 H f level m =
       f\<lparr>out := out f
         @ (if (case parent m of
                  None \<Rightarrow> True
                | Some p \<Rightarrow> flags p AND LY_NODE_CONFIG_MASK H
                             \<noteq> flags m AND LY_NODE_CONFIG_MASK H) then
              (if flags m AND LY_NODE_CONFIG_W H \<noteq> 0 then
                 pad (LEVEL level) INDENT @ ''config "true";\<newline>''
               else if flags m AND LY_NODE_CONFIG_R H \<noteq> 0 then
                 pad (LEVEL level) INDENT @ ''config "false";\<newline>''
               else [])
            else [])
         @ emitted (\<lambda>f. yang_print_mnode_common H f level m)\<rparr>\<close>
  by (simp add: yang_print_mnode_common2_def Let_def fprintf_unbounded
        yang_print_mnode_common_appends)

lemma yang_print_mnode_common2_appends:
  "room f = None \<Longrightarrow>
     yang_print_mnode_common2 H f level m
       = f\<lparr>out := out f @ emitted (\<lambda>f. yang_print_mnode_common2 H f level m)\<rparr>"
  by (rule appendsI, rule yang_print_mnode_common2_unbounded)

lemma yang_print_type_enums_unbounded:
  "room f = None \<Longrightarrow>
     yang_print_type_enums H f level es =
       f\<lparr>out := out f @ concat (map (\<lambda>e. emitted (\<lambda>f. yang_print_type_enums H f level [e])) es)\<rparr>"
proof (induction es arbitrary: f)
  case Nil
  then show ?case by simp
next
  case (Cons e es)
  have one: "room g = None \<Longrightarrow>
      yang_print_type_enums H g level [e] =
        g\<lparr>out := out g @ emitted (\<lambda>f. yang_print_type_enums H f level [e])\<rparr>" for g
    by (rule appendsI)
      (simp add: Let_def fprintf_unbounded yang_print_mnode_common_appends)
  have "yang_print_type_enums H f level (e # es)
          = yang_print_type_enums H (yang_print_type_enums H f level [e]) level es"
    by (simp add: Let_def)
  then show ?case
    using Cons.prems by (simp add: one Cons.IH del: yang_print_type_enums.simps)
qed

lemma yang_print_type_unbounded:
  \<open>room f = None \<Longrightarrow>
     yang_print_type H f level m t =
       f\<lparr>out := out f @ pad (LEVEL level) INDENT @ ''type ''
         @ (case prefix t of Some p \<Rightarrow> p @ '':'' | None \<Rightarrow> []) @ name (der t) @ '' {\<newline>''
         @ (case info t of
              LY_TYPE_ENUM enums \<Rightarrow> emitted (\<lambda>f. yang_print_type_enums H f (level + 1) enums)
            | LY_TYPE_IDENT r \<Rightarrow>
                pad (LEVEL (level + 1)) INDENT @ ''base ''
                  @ (if addr m = addr (module r) then [] else mod_prefix (module r) @ '':'')
                  @ name r @ '';\<newline>''
            | LY_TYPE_OTHER \<Rightarrow> [])
         @ pad (LEVEL level) INDENT @ ''}\<newline>''\<rparr>\<close>
  by (simp add: yang_print_type_def Let_def fprintf_unbounded yang_print_type_enums_unbounded
        emitted_def empty_stream_def split: option.splits ly_type_info.splits)

lemma yang_print_type_appends:
  "room f = None \<Longrightarrow>
     yang_print_type H f level m t
       = f\<lparr>out := out f @ emitted (\<lambda>f. yang_print_type H f level m t)\<rparr>"
  by (rule appendsI, rule yang_print_type_unbounded)

lemma yang_print_typedef_appends:
  "room f = None \<Longrightarrow>
     yang_print_typedef H f level m t
       = f\<lparr>out := out f @ emitted (\<lambda>f. yang_print_typedef H f level m t)\<rparr>"
  by (rule appendsI)
    (simp add: yang_print_typedef_def Let_def fprintf_unbounded yang_print_mnode_common_appends
       yang_print_type_appends)

lemma yang_print_identity_appends:
  "room f = None \<Longrightarrow>
     yang_print_identity H f level i
       = f\<lparr>out := out f @ emitted (\<lambda>f. yang_print_identity H f level i)\<rparr>"
  by (rule appendsI [where x = "pad (LEVEL level) INDENT @ ''identity '' @ name i @ '' {\<newline>''
        @ emitted (\<lambda>f. yang_print_mnode_common H f (level + 1) i)
        @ (case base i of
             Some b \<Rightarrow>
               pad (LEVEL (level + 1)) INDENT @ ''base ''
                 @ (if addr (module b) = addr (module i) then [] else mod_prefix (module b) @ '':'')
                 @ name b @ '';\<newline>''
           | None \<Rightarrow> [])
        @ pad (LEVEL level) INDENT @ ''}\<newline>''"])
    (simp add: yang_print_identity_def Let_def fprintf_unbounded yang_print_mnode_common_appends
       split: option.splits)

lemma yang_print_leaf_appends:
  "room f = None \<Longrightarrow>
     yang_print_leaf H f level m = f\<lparr>out := out f @ emitted (\<lambda>f. yang_print_leaf H f level m)\<rparr>"
  by (rule appendsI)
    (simp add: yang_print_leaf_def Let_def fprintf_unbounded yang_print_mnode_common2_appends
       yang_print_type_appends)

lemma yang_print_leaflist_appends:
  "room f = None \<Longrightarrow>
     yang_print_leaflist H f level m
       = f\<lparr>out := out f @ emitted (\<lambda>f. yang_print_leaflist H f level m)\<rparr>"
  by (rule appendsI)
    (simp add: yang_print_leaflist_def Let_def fprintf_unbounded yang_print_mnode_common2_appends
       yang_print_type_appends)

lemma yang_print_uses_appends:
  "room f = None \<Longrightarrow>
     yang_print_uses H f level m = f\<lparr>out := out f @ emitted (\<lambda>f. yang_print_uses H f level m)\<rparr>"
  by (rule appendsI)
    (simp add: yang_print_uses_def Let_def fprintf_unbounded yang_print_mnode_common_appends)

lemma fold_appends:
  assumes "\<And>x g. x \<in> set xs \<Longrightarrow> room g = None \<Longrightarrow> p x g = g\<lparr>out := out g @ t x\<rparr>"
  shows "room f = None \<Longrightarrow> fold p xs f = f\<lparr>out := out f @ concat (map t xs)\<rparr>"
  using assms by (induction xs arbitrary: f) simp_all

lemma space_separated_Cons:
  "space_separated (x # xs) = x @ (if xs \<noteq> [] then '' '' else []) @ space_separated xs"
  by (cases xs) simp_all

lemma yang_print_list_keys_unbounded:
  "room f = None \<Longrightarrow>
     yang_print_list_keys f ks i = f\<lparr>out := out f @ space_separated (map name (drop i ks))\<rparr>"
proof (induction f ks i rule: yang_print_list_keys.induct)
  case (1 f ks i)
  show ?case
  proof (cases "i < length ks")
    case True
    let ?f = "fprintf f (name (ks ! i) @ (if i + 1 < length ks then '' '' else []))"
    have r: "room ?f = None"
      using "1.prems" by (simp add: fprintf_unbounded)
    have d: "drop i ks = ks ! i # drop (i + 1) ks"
      using True by (simp add: Cons_nth_drop_Suc)
    have e: "drop (i + 1) ks \<noteq> [] \<longleftrightarrow> i + 1 < length ks"
      by auto
    show ?thesis
      apply (subst yang_print_list_keys.simps)
      apply (subst d)
      using True "1.IH" [OF True r] "1.prems" e
      by (simp add: fprintf_unbounded space_separated_Cons del: space_separated.simps)
  next
    case False
    then show ?thesis
      by (subst yang_print_list_keys.simps) simp
  qed
qed

lemma fold_typedef_unbounded:
  "room f = None \<Longrightarrow>
     fold (\<lambda>t f. yang_print_typedef H f level m t) ts f =
       f\<lparr>out := out f @ concat (map (\<lambda>t. emitted (\<lambda>f. yang_print_typedef H f level m t)) ts)\<rparr>"
  by (rule fold_appends) (rule yang_print_typedef_appends)

lemma yang_print_container_step:
  assumes "\<And>x g. x \<in> set ch \<Longrightarrow> room g = None \<Longrightarrow>
             yang_print_mnode H g (Suc level) x (mask_all H) =
               g\<lparr>out := out g @ emitted (\<lambda>f. yang_print_mnode H f (Suc level) x (mask_all H))\<rparr>"
    and "room f = None"
  shows "yang_print_container H f level (Mnode n ch) =
           f\<lparr>out := out f @ pad (LEVEL level) INDENT @ ''container '' @ name n @ '' {\<newline>''
             @ emitted (\<lambda>f. yang_print_mnode_common2 H f (level + 1) n)
             @ concat (map (\<lambda>t. emitted (\<lambda>f. yang_print_typedef H f (level + 1) (module n) t))
                        (tpdf n))
             @ concat (map (\<lambda>x. emitted (\<lambda>f. yang_print_mnode H f (level + 1) x (mask_all H)))
                        ch)
             @ pad (LEVEL level) INDENT @ ''}\<newline>''\<rparr>"
  using assms(2)
  by (simp add: yang_print_container.simps Let_def fprintf_unbounded
        yang_print_mnode_common2_appends fold_typedef_unbounded
        fold_appends [OF assms(1)])

lemma yang_print_choice_step:
  assumes "\<And>x g. x \<in> set ch \<Longrightarrow> room g = None \<Longrightarrow>
             yang_print_mnode H g (Suc level) x (mask_choice H) =
               g\<lparr>out := out g
                    @ emitted (\<lambda>f. yang_print_mnode H f (Suc level) x (mask_choice H))\<rparr>"
    and "room f = None"
  shows "yang_print_choice H f level (Mnode n ch) =
           f\<lparr>out := out f @ pad (LEVEL level) INDENT @ ''choice '' @ name n @ '' {\<newline>''
             @ emitted (\<lambda>f. yang_print_mnode_common2 H f (level + 1) n)
             @ concat (map (\<lambda>x. emitted (\<lambda>f. yang_print_mnode H f (level + 1) x (mask_choice H)))
                        ch)
             @ pad (LEVEL level) INDENT @ ''}\<newline>''\<rparr>"
  using assms(2)
  by (simp add: yang_print_choice.simps Let_def fprintf_unbounded
        yang_print_mnode_common2_appends
        fold_appends [OF assms(1)])

lemma yang_print_list_step:
  assumes "\<And>x g. x \<in> set ch \<Longrightarrow> room g = None \<Longrightarrow>
             yang_print_mnode H g (Suc level) x (mask_all H) =
               g\<lparr>out := out g @ emitted (\<lambda>f. yang_print_mnode H f (Suc level) x (mask_all H))\<rparr>"
    and "room f = None"
  shows \<open>yang_print_list H f level (Mnode n ch) =
           f\<lparr>out := out f @ pad (LEVEL level) INDENT @ ''list '' @ name n @ '' {\<newline>''
             @ emitted (\<lambda>f. yang_print_mnode_common2 H f (level + 1) n)
             @ (if keys n = [] then []
                else pad (LEVEL (level + 1)) INDENT @ ''key "''
                       @ space_separated (map name (keys n)) @ ''";\<newline>'')
             @ concat (map (\<lambda>t. emitted (\<lambda>f. yang_print_typedef H f (level + 1) (module n) t))
                        (tpdf n))
             @ concat (map (\<lambda>x. emitted (\<lambda>f. yang_print_mnode H f (level + 1) x (mask_all H)))
                        ch)
             @ pad (LEVEL level) INDENT @ ''}\<newline>''\<rparr>\<close>
  using assms(2)
  by (simp add: yang_print_list.simps Let_def fprintf_unbounded
        yang_print_mnode_common2_appends yang_print_list_keys_unbounded fold_typedef_unbounded
        fold_appends [OF assms(1)])

lemma yang_print_grouping_step:
  assumes "\<And>x g. x \<in> set ch \<Longrightarrow> room g = None \<Longrightarrow>
             yang_print_mnode H g (Suc level) x (mask_all H) =
               g\<lparr>out := out g @ emitted (\<lambda>f. yang_print_mnode H f (Suc level) x (mask_all H))\<rparr>"
    and "room f = None"
  shows "yang_print_grouping H f level (Mnode n ch) =
           f\<lparr>out := out f @ pad (LEVEL level) INDENT @ ''grouping '' @ name n @ '' {\<newline>''
             @ emitted (\<lambda>f. yang_print_mnode_common H f (level + 1) n)
             @ concat (map (\<lambda>t. emitted (\<lambda>f. yang_print_typedef H f (level + 1) (module n) t))
                        (tpdf n))
             @ concat (map (\<lambda>x. emitted (\<lambda>f. yang_print_mnode H f (level + 1) x (mask_all H)))
                        ch)
             @ pad (LEVEL level) INDENT @ ''}\<newline>''\<rparr>"
  using assms(2)
  by (simp add: yang_print_grouping.simps Let_def fprintf_unbounded
        yang_print_mnode_common_appends fold_typedef_unbounded
        fold_appends [OF assms(1)])

lemma emitted_id: "emitted (\<lambda>f. f) = []"
  by (simp add: emitted_def empty_stream_def)

lemma yang_print_mnode_appends_all:
  "room f = None \<Longrightarrow>
     yang_print_mnode H f level m k =
       f\<lparr>out := out f @ emitted (\<lambda>f. yang_print_mnode H f level m k)\<rparr>"
  "room f = None \<Longrightarrow>
     yang_print_container H f level m =
       f\<lparr>out := out f @ emitted (\<lambda>f. yang_print_container H f level m)\<rparr>"
  "room f = None \<Longrightarrow>
     yang_print_choice H f level m =
       f\<lparr>out := out f @ emitted (\<lambda>f. yang_print_choice H f level m)\<rparr>"
  "room f = None \<Longrightarrow>
     yang_print_list H f level m =
       f\<lparr>out := out f @ emitted (\<lambda>f. yang_print_list H f level m)\<rparr>"
  "room f = None \<Longrightarrow>
     yang_print_grouping H f level m =
       f\<lparr>out := out f @ emitted (\<lambda>f. yang_print_grouping H f level m)\<rparr>"
proof (induction H f level m k and H f level m and H f level m and H f level m and H f level m
    rule: yang_print_mnode_yang_print_container_yang_print_choice_yang_print_list_yang_print_grouping.induct)
  case (1 H f level n ch mask')
  then show ?case
    by (simp add: yang_print_mnode.simps Let_def emitted_id yang_print_leaf_appends
          yang_print_leaflist_appends yang_print_uses_appends)
next
  case (2 H f level n ch)
  show ?case
    by (rule appendsI, rule yang_print_container_step) (use 2 in simp_all)
next
  case (3 H f level n ch)
  show ?case
    by (rule appendsI, rule yang_print_choice_step) (use 3 in simp_all)
next
  case (4 H f level n ch)
  show ?case
    by (rule appendsI, rule yang_print_list_step) (use 4 in simp_all)
next
  case (5 H f level n ch)
  show ?case
    by (rule appendsI, rule yang_print_grouping_step) (use 5 in simp_all)
qed

subsection \<open>The node kinds below a choice\<close>

lemma fold_skip:
  "(\<And>x. x \<in> set xs \<Longrightarrow> \<not> P x \<Longrightarrow> g x = (\<lambda>f. f)) \<Longrightarrow> fold g xs f = fold g (filter P xs) f"
  by (induction xs arbitrary: f) auto

lemma mask_choice_dispatch:
  assumes "disjoint_bits (node_kinds H)"
  shows "LY_NODE_CONTAINER H AND mask_choice H = LY_NODE_CONTAINER H"
    and "LY_NODE_LEAF H AND mask_choice H = LY_NODE_LEAF H"
    and "LY_NODE_LEAFLIST H AND mask_choice H = LY_NODE_LEAFLIST H"
    and "LY_NODE_LIST H AND mask_choice H = LY_NODE_LIST H"
    and "LY_NODE_CHOICE H AND mask_choice H = 0"
    and "LY_NODE_USES H AND mask_choice H = 0"
    and "LY_NODE_GROUPING H AND mask_choice H = 0"
  using assms
  by (simp_all add: node_kinds_def mask_choice_def bit.conj_disj_distrib and.commute)

lemma kinds_distinct:
  assumes "disjoint_bits (node_kinds H)"
  shows "distinct (node_kinds H)" and "0 \<notin> set (node_kinds H)"
  using assms by (auto simp add: node_kinds_def)

lemma choice_dispatch:
  assumes "disjoint_bits (node_kinds H)" and "nodetype n \<in> set (node_kinds H)"
  shows "yang_print_mnode H f level (Mnode n ch) (mask_choice H) =
      (if nodetype n = LY_NODE_CONTAINER H then yang_print_container H f level (Mnode n ch)
       else if nodetype n = LY_NODE_LEAF H then yang_print_leaf H f level (Mnode n ch)
       else if nodetype n = LY_NODE_LEAFLIST H then yang_print_leaflist H f level (Mnode n ch)
       else if nodetype n = LY_NODE_LIST H then yang_print_list H f level (Mnode n ch)
       else f)"
proof -
  note d = mask_choice_dispatch [OF assms(1)]
  have ne: "distinct (node_kinds H) \<and> 0 \<notin> set (node_kinds H)"
    using kinds_distinct [OF assms(1)] by simp
  then have neq:
    "LY_NODE_CONTAINER H \<noteq> 0" "LY_NODE_CHOICE H \<noteq> 0" "LY_NODE_LEAF H \<noteq> 0"
    "LY_NODE_LEAFLIST H \<noteq> 0" "LY_NODE_LIST H \<noteq> 0" "LY_NODE_USES H \<noteq> 0"
    "LY_NODE_GROUPING H \<noteq> 0"
    "LY_NODE_CONTAINER H \<noteq> LY_NODE_CHOICE H" "LY_NODE_CONTAINER H \<noteq> LY_NODE_LEAF H"
    "LY_NODE_CONTAINER H \<noteq> LY_NODE_LEAFLIST H" "LY_NODE_CONTAINER H \<noteq> LY_NODE_LIST H"
    "LY_NODE_CONTAINER H \<noteq> LY_NODE_USES H" "LY_NODE_CONTAINER H \<noteq> LY_NODE_GROUPING H"
    "LY_NODE_CHOICE H \<noteq> LY_NODE_LEAF H" "LY_NODE_CHOICE H \<noteq> LY_NODE_LEAFLIST H"
    "LY_NODE_CHOICE H \<noteq> LY_NODE_LIST H" "LY_NODE_CHOICE H \<noteq> LY_NODE_USES H"
    "LY_NODE_CHOICE H \<noteq> LY_NODE_GROUPING H"
    "LY_NODE_LEAF H \<noteq> LY_NODE_LEAFLIST H" "LY_NODE_LEAF H \<noteq> LY_NODE_LIST H"
    "LY_NODE_LEAF H \<noteq> LY_NODE_USES H" "LY_NODE_LEAF H \<noteq> LY_NODE_GROUPING H"
    "LY_NODE_LEAFLIST H \<noteq> LY_NODE_LIST H" "LY_NODE_LEAFLIST H \<noteq> LY_NODE_USES H"
    "LY_NODE_LEAFLIST H \<noteq> LY_NODE_GROUPING H"
    "LY_NODE_LIST H \<noteq> LY_NODE_USES H" "LY_NODE_LIST H \<noteq> LY_NODE_GROUPING H"
    "LY_NODE_USES H \<noteq> LY_NODE_GROUPING H"
    by (simp_all add: node_kinds_def)
  from assms(2) consider
      "nodetype n = LY_NODE_CONTAINER H" | "nodetype n = LY_NODE_CHOICE H"
    | "nodetype n = LY_NODE_LEAF H" | "nodetype n = LY_NODE_LEAFLIST H"
    | "nodetype n = LY_NODE_LIST H" | "nodetype n = LY_NODE_USES H"
    | "nodetype n = LY_NODE_GROUPING H"
    by (auto simp add: node_kinds_def)
  then show ?thesis
  proof cases
    case 1 then show ?thesis by (simp add: yang_print_mnode.simps Let_def d)
  next
    case 2 then show ?thesis using neq by (simp add: yang_print_mnode.simps Let_def d)
  next
    case 3 then show ?thesis using neq by (simp add: yang_print_mnode.simps Let_def d)
  next
    case 4 then show ?thesis using neq by (simp add: yang_print_mnode.simps Let_def d)
  next
    case 5 then show ?thesis using neq by (simp add: yang_print_mnode.simps Let_def d)
  next
    case 6 then show ?thesis using neq by (simp add: yang_print_mnode.simps Let_def d)
  next
    case 7 then show ?thesis using neq by (simp add: yang_print_mnode.simps Let_def d)
  qed
qed

lemma tree_h_bits_disjoint: "disjoint_bits (node_kinds tree_h_bits)"
  by (simp add: node_kinds_def tree_h_bits_def)

subsection \<open>Running the printer on a concrete stream\<close>

lemma fprintf_fits:
  "room f = Some n \<Longrightarrow> length s \<le> n \<Longrightarrow>
     fprintf f s = f\<lparr>out := out f @ s, room := Some (n - length s)\<rparr>"
  by (simp add: fprintf_def)

lemma fprintf_refused:
  "room f = Some n \<Longrightarrow> \<not> length s \<le> n \<Longrightarrow> fprintf f s = f\<lparr>error := True\<rparr>"
  by (simp add: fprintf_def)

lemmas run_simps =
  empty_stream_def emitted_def pad_def LEVEL_def INDENT_def pad_step
  fprintf_unbounded fprintf_fits fprintf_refused
  fwrite_def tree_h_bits_def m1_def no_module_def string_type_def leaf_l1_def container_c1_def
  module_m1_def
  yang_print_model_def yang_print_model_includes.simps yang_print_text_def
  yang_print_text_loop.simps yang_print_mnode.simps yang_print_container.simps
  yang_print_leaf_def yang_print_mnode_common2_def yang_print_mnode_common_def
  yang_print_type_def mask_all_def EXIT_SUCCESS_def Let_def

subsection \<open>Every printer hands the stream the same writes\<close>

lemma writes_append: "writes (xs @ ys) f = writes ys (writes xs f)"
  by (simp add: writes_def)

lemma writer_id: "writer (\<lambda>f. f)"
  unfolding writer_def by (rule exI [of _ "[]"]) (simp add: writes_def)

lemma writer_comp:
  assumes "writer p" and "writer q"
  shows "writer (\<lambda>f. q (p f))"
proof -
  from assms obtain xs ys where "\<forall>f. p f = writes xs f" "\<forall>f. q f = writes ys f"
    unfolding writer_def by blast
  then have "\<forall>f. q (p f) = writes (xs @ ys) f"
    by (simp add: writes_append)
  then show ?thesis
    unfolding writer_def by blast
qed

lemma writer_fprintf: "writer p \<Longrightarrow> writer (\<lambda>f. fprintf (p f) s)"
proof (rule writer_comp [where q = "\<lambda>f. fprintf f s"])
  show "writer (\<lambda>f. fprintf f s)"
    unfolding writer_def by (rule exI [of _ "[s]"]) (simp add: writes_def)
qed

lemma writer_fwrite: "writer p \<Longrightarrow> writer (\<lambda>f. fwrite (p f) s)"
  unfolding fwrite_def by (rule writer_fprintf)

lemma writer_fold:
  assumes "\<And>x. x \<in> set xs \<Longrightarrow> writer (g x)" and "writer p"
  shows "writer (\<lambda>f. fold g xs (p f))"
  using assms
proof (induction xs arbitrary: p)
  case Nil
  then show ?case by simp
next
  case (Cons x xs)
  have "writer (\<lambda>f. g x (p f))"
  proof (rule writer_comp [where q = "g x"])
    show "writer p" by (rule Cons.prems(2))
    show "writer (g x)" by (rule Cons.prems(1)) simp
  qed
  from Cons.IH [OF _ this] Cons.prems(1) show ?case
    by simp
qed

lemma yang_print_text_loop_writer:
  "\<exists>ss b. \<forall>f. yang_print_text_loop f level t = (writes ss f, b)"
proof (induction t rule: length_induct)
  case (1 t)
  show ?case
  proof (cases "strchr t CHR ''\<newline>''")
    case None
    then have "\<forall>f. yang_print_text_loop f level t = (writes [] f, t)"
      by (subst yang_print_text_loop.simps) (simp add: writes_def)
    then show ?thesis by blast
  next
    case (Some s)
    have "s < length t"
      using Some by (induction t arbitrary: s) (auto split: if_splits)
    then have "length (drop (s + 1) t) < length t"
      by simp
    with 1 obtain ss b where
      ih: "\<forall>f. yang_print_text_loop f level (drop (s + 1) t) = (writes ss f, b)"
      by blast
    have "\<forall>f. yang_print_text_loop f level t
            = (writes ([take (s + 1) t, pad (LEVEL level) INDENT] @ ss) f, b)"
      using ih Some
      by (subst yang_print_text_loop.simps)
        (simp add: Let_def writes_append fwrite_def, simp add: writes_def)
    then show ?thesis by blast
  qed
qed

lemma yang_print_text_writer:
  assumes "writer p"
  shows "writer (\<lambda>f. yang_print_text (p f) level nm t)"
proof (rule writer_comp [OF assms, where q = "\<lambda>f. yang_print_text f level nm t"])
  obtain ss b where
    l: "\<forall>f. yang_print_text_loop f (level + 1) t = (writes ss f, b)"
    using yang_print_text_loop_writer by blast
  have "\<forall>f. yang_print_text f level nm t =
      writes ([pad (LEVEL level) INDENT @ nm @ ''\<newline>'',
               pad (LEVEL (level + 1)) INDENT @ [CHR 0x22]] @ ss
              @ [b @ [CHR 0x22] @ '';\<newline>\<newline>'']) f"
    using l by (simp add: yang_print_text_def Let_def writes_append) (simp add: writes_def)
  then show "writer (\<lambda>f. yang_print_text f level nm t)"
    unfolding writer_def by blast
qed

lemma writer_if:
  "(c \<Longrightarrow> writer p) \<Longrightarrow> (\<not> c \<Longrightarrow> writer q) \<Longrightarrow> writer (\<lambda>f. if c then p f else q f)"
  by (cases c) simp_all

lemma writer_case_option:
  "(x = None \<Longrightarrow> writer p) \<Longrightarrow> (\<And>y. x = Some y \<Longrightarrow> writer (q y)) \<Longrightarrow>
     writer (\<lambda>f. case x of None \<Rightarrow> p f | Some y \<Rightarrow> q y f)"
  by (cases x) simp_all

lemma writer_case_info:
  "(\<And>es. x = LY_TYPE_ENUM es \<Longrightarrow> writer (p es)) \<Longrightarrow>
   (\<And>r. x = LY_TYPE_IDENT r \<Longrightarrow> writer (q r)) \<Longrightarrow> (x = LY_TYPE_OTHER \<Longrightarrow> writer u) \<Longrightarrow>
     writer (\<lambda>f. case x of LY_TYPE_ENUM es \<Rightarrow> p es f | LY_TYPE_IDENT r \<Rightarrow> q r f
                    | LY_TYPE_OTHER \<Rightarrow> u f)"
  by (cases x) simp_all

lemmas writer_intros =
  writer_id writer_fprintf writer_fwrite yang_print_text_writer writer_if writer_case_option
  writer_case_info

lemma yang_print_mnode_common_writer:
  assumes w: "writer p"
  shows "writer (\<lambda>f. yang_print_mnode_common H (p f) level m)"
  unfolding yang_print_mnode_common_def Let_def by (intro w writer_intros)

lemma yang_print_mnode_common2_writer:
  assumes w: "writer p"
  shows "writer (\<lambda>f. yang_print_mnode_common2 H (p f) level m)"
  unfolding yang_print_mnode_common2_def Let_def
  by (intro w writer_intros yang_print_mnode_common_writer)

lemma yang_print_type_enums_writer:
  assumes w: "writer p"
  shows "writer (\<lambda>f. yang_print_type_enums H (p f) level es)"
  using w
proof (induction es arbitrary: p)
  case Nil
  then show ?case by simp
next
  case (Cons e es)
  show ?case
    unfolding yang_print_type_enums.simps Let_def
    by (intro Cons.IH Cons.prems writer_intros yang_print_mnode_common_writer)
qed

lemma yang_print_type_writer:
  assumes w: "writer p"
  shows "writer (\<lambda>f. yang_print_type H (p f) level m t)"
  unfolding yang_print_type_def Let_def
  by (intro w writer_intros yang_print_type_enums_writer)

lemma yang_print_typedef_writer:
  assumes w: "writer p"
  shows "writer (\<lambda>f. yang_print_typedef H (p f) level m t)"
  unfolding yang_print_typedef_def Let_def
  by (intro w writer_intros yang_print_mnode_common_writer yang_print_type_writer)

lemma yang_print_identity_writer:
  assumes w: "writer p"
  shows "writer (\<lambda>f. yang_print_identity H (p f) level i)"
  unfolding yang_print_identity_def Let_def
  by (intro w writer_intros yang_print_mnode_common_writer)

lemma yang_print_leaf_writer:
  assumes w: "writer p"
  shows "writer (\<lambda>f. yang_print_leaf H (p f) level m)"
  unfolding yang_print_leaf_def Let_def
  by (intro w writer_intros yang_print_mnode_common2_writer yang_print_type_writer)

lemma yang_print_leaflist_writer:
  assumes w: "writer p"
  shows "writer (\<lambda>f. yang_print_leaflist H (p f) level m)"
  unfolding yang_print_leaflist_def Let_def
  by (intro w writer_intros yang_print_mnode_common2_writer yang_print_type_writer)

lemma yang_print_uses_writer:
  assumes w: "writer p"
  shows "writer (\<lambda>f. yang_print_uses H (p f) level m)"
  unfolding yang_print_uses_def Let_def
  by (intro w writer_intros yang_print_mnode_common_writer)

lemma yang_print_list_keys_writer:
  assumes w: "writer p"
  shows "writer (\<lambda>f. yang_print_list_keys (p f) ks i)"
  using w
proof (induction "length ks - i" arbitrary: i p)
  case 0
  then have "\<not> i < length ks" by simp
  then have "(\<lambda>f. yang_print_list_keys (p f) ks i) = p"
    by (subst yang_print_list_keys.simps) simp
  then show ?case using "0.prems" by simp
next
  case (Suc d)
  then have i: "i < length ks" and d: "d = length ks - (i + 1)"
    by simp_all
  have "writer (\<lambda>f. yang_print_list_keys
          (fprintf (p f) (name (ks ! i) @ (if i + 1 < length ks then '' '' else []))) ks (i + 1))"
    by (rule Suc.hyps(1) [OF d]) (intro Suc.prems writer_fprintf)
  moreover have "(\<lambda>f. yang_print_list_keys (p f) ks i) =
      (\<lambda>f. yang_print_list_keys
          (fprintf (p f) (name (ks ! i) @ (if i + 1 < length ks then '' '' else []))) ks (i + 1))"
    using i by (subst yang_print_list_keys.simps) simp
  ultimately show ?case by simp
qed

lemma yang_print_mnode_writer_all:
  "\<forall>level k p. writer p \<longrightarrow>
     writer (\<lambda>f. yang_print_mnode H (p f) level m k) \<and>
     writer (\<lambda>f. yang_print_container H (p f) level m) \<and>
     writer (\<lambda>f. yang_print_choice H (p f) level m) \<and>
     writer (\<lambda>f. yang_print_list H (p f) level m) \<and>
     writer (\<lambda>f. yang_print_grouping H (p f) level m)"
proof (induction m)
  case (Mnode n ch)
  have kids: "writer (\<lambda>f. yang_print_mnode H f l c k)" if "c \<in> set ch" for c l k
    using Mnode [OF that] writer_id by blast
  have tpdfs: "writer (\<lambda>f. yang_print_typedef H f l (module n) t)" for l t
    by (intro writer_id yang_print_typedef_writer)
  have folds:
    "writer q \<Longrightarrow> writer (\<lambda>f. fold (\<lambda>sub f. yang_print_mnode H f l sub k) ch (q f))"
    "writer q \<Longrightarrow> writer (\<lambda>f. fold (\<lambda>t f. yang_print_typedef H f l (module n) t) (tpdf n) (q f))"
    for q l k
    by (rule writer_fold, rule kids, assumption+) (rule writer_fold, rule tpdfs, assumption)
  show ?case
  proof (intro allI impI)
    fix level k p
    assume w: "writer p"
    have c: "writer (\<lambda>f. yang_print_container H (p f) level (Mnode n ch))"
      unfolding yang_print_container.simps Let_def
      by (intro w writer_intros folds yang_print_mnode_common2_writer)
    have h: "writer (\<lambda>f. yang_print_choice H (p f) level (Mnode n ch))"
      unfolding yang_print_choice.simps Let_def
      by (intro w writer_intros folds yang_print_mnode_common2_writer)
    have l: "writer (\<lambda>f. yang_print_list H (p f) level (Mnode n ch))"
      unfolding yang_print_list.simps Let_def
      by (intro w writer_intros folds yang_print_mnode_common2_writer
            yang_print_list_keys_writer)
    have g: "writer (\<lambda>f. yang_print_grouping H (p f) level (Mnode n ch))"
      unfolding yang_print_grouping.simps Let_def
      by (intro w writer_intros folds yang_print_mnode_common_writer)
    have m: "writer (\<lambda>f. yang_print_mnode H (p f) level (Mnode n ch) k)"
      unfolding yang_print_mnode.simps Let_def
      by (intro w c h l g writer_intros yang_print_leaf_writer yang_print_leaflist_writer
            yang_print_uses_writer)
    from m c h l g
    show "writer (\<lambda>f. yang_print_mnode H (p f) level (Mnode n ch) k) \<and>
      writer (\<lambda>f. yang_print_container H (p f) level (Mnode n ch)) \<and>
      writer (\<lambda>f. yang_print_choice H (p f) level (Mnode n ch)) \<and>
      writer (\<lambda>f. yang_print_list H (p f) level (Mnode n ch)) \<and>
      writer (\<lambda>f. yang_print_grouping H (p f) level (Mnode n ch))"
      by blast
  qed
qed

lemma yang_print_model_imports_writer:
  assumes w: "writer p"
  shows "writer (\<lambda>f. yang_print_model_imports (p f) level is)"
  using w
proof (induction "is" arbitrary: p)
  case Nil
  then show ?case by simp
next
  case (Cons i "is")
  show ?case
    unfolding yang_print_model_imports.simps Let_def
    by (intro Cons.IH Cons.prems writer_intros)
qed

lemma yang_print_model_revisions_writer:
  assumes w: "writer p"
  shows "writer (\<lambda>f. yang_print_model_revisions (p f) level rs)"
  using w
proof (induction rs arbitrary: p)
  case Nil
  then show ?case by simp
next
  case (Cons r rs)
  show ?case
    unfolding yang_print_model_revisions.simps Let_def
    by (intro Cons.IH Cons.prems writer_intros)
qed

lemma yang_print_model_includes_writer:
  assumes "\<forall>j. i \<le> j \<longrightarrow> j < length (inc m) \<longrightarrow> inc_rev (inc m ! j) \<noteq> [] \<longrightarrow> j < length (imp m)"
  shows "\<exists>ss. \<forall>f. yang_print_model_includes f level m i = Inr (writes ss f)"
  using assms
proof (induction "length (inc m) - i" arbitrary: i)
  case 0
  then have "\<forall>f. yang_print_model_includes f level m i = Inr (writes [] f)"
    by (subst yang_print_model_includes.simps) (simp add: writes_def)
  then show ?case by blast
next
  case (Suc d)
  then have i: "i < length (inc m)" and d: "d = length (inc m) - (i + 1)"
    by simp_all
  have "\<forall>j. i + 1 \<le> j \<longrightarrow> j < length (inc m) \<longrightarrow> inc_rev (inc m ! j) \<noteq> [] \<longrightarrow>
      j < length (imp m)"
    using Suc.prems by simp
  from Suc.hyps(1) [OF d this] obtain ss where
    ih: "\<forall>f. yang_print_model_includes f level m (i + 1) = Inr (writes ss f)"
    by blast
  have "writer (\<lambda>f. yang_print_text
          (fprintf f (pad (LEVEL level) INDENT @ ''include '' @ [CHR 0x22]
                        @ mod_name (inc_submodule (inc m ! i)) @ [CHR 0x22] @ '' {\<newline>''))
          (level + 1) ''revision-date'' (imp_rev (imp m ! i)))"
    by (intro writer_intros)
  then obtain ts where
    ts: "\<forall>f. yang_print_text
          (fprintf f (pad (LEVEL level) INDENT @ ''include '' @ [CHR 0x22]
                        @ mod_name (inc_submodule (inc m ! i)) @ [CHR 0x22] @ '' {\<newline>''))
          (level + 1) ''revision-date'' (imp_rev (imp m ! i)) = writes ts f"
    unfolding writer_def by blast
  show ?case
  proof (cases "inc_rev (inc m ! i) \<noteq> []")
    case True
    then have "i < length (imp m)"
      using Suc.prems i by simp
    then have "\<forall>f. yang_print_model_includes f level m i
        = Inr (writes (ts @ [pad (LEVEL level) INDENT @ ''}\<newline>''] @ ss) f)"
      using True i ih ts
      by (subst yang_print_model_includes.simps)
        (simp add: Let_def writes_append, simp add: writes_def)
    then show ?thesis by blast
  next
    case False
    then have "\<forall>f. yang_print_model_includes f level m i
        = Inr (writes ([pad (LEVEL level) INDENT @ ''include '' @ [CHR 0x22]
                        @ mod_name (inc_submodule (inc m ! i)) @ [CHR 0x22] @ '';\<newline>''] @ ss) f)"
      using i ih
      by (subst yang_print_model_includes.simps)
        (simp add: Let_def writes_append, simp add: writes_def)
    then show ?thesis by blast
  qed
qed

lemma writes_Cons_snoc: "writes (a # ss @ [b]) f = fprintf (writes ss (fprintf f a)) b"
  by (simp add: writes_def)

section \<open>The claims\<close>

subsection \<open>C7: the text printer\<close>

text \<open>
  C7, as the code has it. On a stream without a limit a call of \<^verbatim>\<open>yang_print_text\<close> appends
  the label on a line of its own at the current indentation, then, one level deeper, the
  body in double quotes, closed by \<^verbatim>\<open>";\<close>, a line break and an empty line; inside the body
  every line break of the text is kept and followed by the indentation of the body
  (\<open>reindented\<close>), so every physical line starts at the deeper level. For the description
  \<^verbatim>\<open>"line1\nline2"\<close> at level 2 this is the label after 4 blanks and both lines of the body
  after 6 blanks, the first one behind the opening quote.
\<close>

theorem yang_print_text_reindents:
  \<open>room f = None \<Longrightarrow>
     out (yang_print_text f level nm t) =
       out f @ pad (LEVEL level) INDENT @ nm @ ''\<newline>''
         @ pad (LEVEL (level + 1)) INDENT @ ''"'' @ reindented (level + 1) t @ ''";\<newline>\<newline>''\<close>
  by (simp add: yang_print_text_unbounded)

theorem yang_print_text_reindents_witness:
  \<open>room empty_stream = None \<and>
   out (yang_print_text empty_stream 2 ''description'' ''line1\<newline>line2'') =
     ''    description\<newline>      "line1\<newline>      line2";\<newline>\<newline>''\<close>
  using yang_print_text_reindents [of empty_stream 2 "''description''" "''line1\<newline>line2''"]
  by (simp add: eval_simps)

text \<open>
  C7 as stated fails on its example: the block of the specification has the body four
  columns deeper than the label, the code two, whether the two columns of the enclosing
  list item are removed from the block or not.
\<close>

theorem yang_print_text_example_block_counterexample:
  \<open>out (yang_print_text empty_stream 2 ''description'' ''line1\<newline>line2'')
     \<noteq> spec_example_block 2 \<and>
   out (yang_print_text empty_stream 2 ''description'' ''line1\<newline>line2'')
     \<noteq> spec_example_block 0\<close>
  by (simp add: yang_print_text_unbounded spec_example_block_def eval_simps)

subsection \<open>C9: at most one status line\<close>

text \<open>
  C9. On a stream without a limit \<^verbatim>\<open>yang_print_mnode_common\<close> appends at most one status
  line, chosen by precedence whatever other status bits are set: \<^verbatim>\<open>current\<close> if its bit is
  set, else \<^verbatim>\<open>deprecated\<close> if its bit is set, else \<^verbatim>\<open>obsolete\<close> if its bit is set, else
  nothing; then the description and the reference, each as a text block, if present.
\<close>

theorem yang_print_mnode_common_status:
  \<open>room f = None \<Longrightarrow>
     out (yang_print_mnode_common H f level m) =
       out f
         @ (if flags m AND LY_NODE_STATUS_CURR H \<noteq> 0 then
              pad (LEVEL level) INDENT @ ''status "current";\<newline>''
            else if flags m AND LY_NODE_STATUS_DEPRC H \<noteq> 0 then
              pad (LEVEL level) INDENT @ ''status "deprecated";\<newline>''
            else if flags m AND LY_NODE_STATUS_OBSLT H \<noteq> 0 then
              pad (LEVEL level) INDENT @ ''status "obsolete";\<newline>''
            else [])
         @ (case dsc m of
              Some d \<Rightarrow> emitted (\<lambda>f. yang_print_text f level ''description'' d)
            | None \<Rightarrow> [])
         @ (case ref m of
              Some r \<Rightarrow> emitted (\<lambda>f. yang_print_text f level ''reference'' r)
            | None \<Rightarrow> [])\<close>
  by (simp add: yang_print_mnode_common_unbounded)

theorem yang_print_mnode_common_status_witness:
  \<open>room empty_stream = None \<and>
   out (yang_print_mnode_common tree_h_bits empty_stream 1
          \<lparr>name = ''n'', dsc = None, ref = None, flags = 0x1C\<rparr>)
     = ''  status "current";\<newline>'' \<and>
   out (yang_print_mnode_common tree_h_bits empty_stream 1
          \<lparr>name = ''n'', dsc = None, ref = None, flags = 0x18\<rparr>)
     = ''  status "deprecated";\<newline>'' \<and>
   out (yang_print_mnode_common tree_h_bits empty_stream 1
          \<lparr>name = ''n'', dsc = None, ref = None, flags = 0x10\<rparr>)
     = ''  status "obsolete";\<newline>'' \<and>
   out (yang_print_mnode_common tree_h_bits empty_stream 1
          \<lparr>name = ''n'', dsc = None, ref = None, flags = 0x03\<rparr>)
     = []\<close>
  using
    yang_print_mnode_common_status [of empty_stream tree_h_bits 1
      "\<lparr>name = ''n'', dsc = None, ref = None, flags = 0x1C\<rparr>"]
    yang_print_mnode_common_status [of empty_stream tree_h_bits 1
      "\<lparr>name = ''n'', dsc = None, ref = None, flags = 0x18\<rparr>"]
    yang_print_mnode_common_status [of empty_stream tree_h_bits 1
      "\<lparr>name = ''n'', dsc = None, ref = None, flags = 0x10\<rparr>"]
    yang_print_mnode_common_status [of empty_stream tree_h_bits 1
      "\<lparr>name = ''n'', dsc = None, ref = None, flags = 0x03\<rparr>"]
  by (simp add: eval_simps)

subsection \<open>C10: no config line for an unset config flag\<close>

text \<open>
  C10. A node with neither the writable nor the read-only bit set gets no config line,
  with or without a parent, so in particular as a root node: \<^verbatim>\<open>yang_print_mnode_common2\<close>
  then does exactly what \<^verbatim>\<open>yang_print_mnode_common\<close> does, on every stream.
\<close>

theorem yang_print_mnode_common2_config_unset:
  "flags n AND LY_NODE_CONFIG_W H = 0 \<Longrightarrow> flags n AND LY_NODE_CONFIG_R H = 0 \<Longrightarrow>
     yang_print_mnode_common2 H f level n = yang_print_mnode_common H f level n"
  by (simp add: yang_print_mnode_common2_def)

theorem yang_print_mnode_common2_config_unset_witness:
  \<open>parent (node container_c1\<lparr>flags := 0x04\<rparr>) = None \<and>
   flags (node container_c1\<lparr>flags := 0x04\<rparr>) AND LY_NODE_CONFIG_W tree_h_bits = 0 \<and>
   flags (node container_c1\<lparr>flags := 0x04\<rparr>) AND LY_NODE_CONFIG_R tree_h_bits = 0 \<and>
   yang_print_mnode_common2 tree_h_bits empty_stream 1 (node container_c1\<lparr>flags := 0x04\<rparr>)
     = yang_print_mnode_common tree_h_bits empty_stream 1 (node container_c1\<lparr>flags := 0x04\<rparr>) \<and>
   out (yang_print_mnode_common2 tree_h_bits empty_stream 1 (node container_c1\<lparr>flags := 0x04\<rparr>))
     = ''  status "current";\<newline>''\<close>
  using yang_print_mnode_common2_config_unset
    [of "node container_c1\<lparr>flags := 0x04\<rparr>" tree_h_bits empty_stream 1]
  by (simp add: eval_simps yang_print_mnode_common_def)

subsection \<open>C4: the config line\<close>

text \<open>
  C4, as the code has it. A node whose config bits equal those of its parent gets no
  config line. A node without a parent, or whose config bits differ from those of its
  parent, gets the line \<^verbatim>\<open>config "true";\<close> if its writable bit is set, and the line
  \<^verbatim>\<open>config "false";\<close> if its writable bit is clear and its read-only bit is set; the line is
  written before the status, the description and the reference.
\<close>

theorem yang_print_mnode_common2_config:
  \<open>(parent n = Some p \<and>
      flags p AND LY_NODE_CONFIG_MASK H = flags n AND LY_NODE_CONFIG_MASK H \<longrightarrow>
      yang_print_mnode_common2 H f level n = yang_print_mnode_common H f level n) \<and>
   ((parent n = None \<or>
       parent n = Some p \<and>
       flags p AND LY_NODE_CONFIG_MASK H \<noteq> flags n AND LY_NODE_CONFIG_MASK H) \<and>
      flags n AND LY_NODE_CONFIG_W H \<noteq> 0 \<longrightarrow>
      yang_print_mnode_common2 H f level n =
        yang_print_mnode_common H
          (fprintf f (pad (LEVEL level) INDENT @ ''config "true";\<newline>'')) level n) \<and>
   ((parent n = None \<or>
       parent n = Some p \<and>
       flags p AND LY_NODE_CONFIG_MASK H \<noteq> flags n AND LY_NODE_CONFIG_MASK H) \<and>
      flags n AND LY_NODE_CONFIG_W H = 0 \<and> flags n AND LY_NODE_CONFIG_R H \<noteq> 0 \<longrightarrow>
      yang_print_mnode_common2 H f level n =
        yang_print_mnode_common H
          (fprintf f (pad (LEVEL level) INDENT @ ''config "false";\<newline>'')) level n)\<close>
  by (auto simp add: yang_print_mnode_common2_def)

theorem yang_print_mnode_common2_config_witness:
  \<open>parent (node leaf_l1\<lparr>flags := 0x01\<rparr>)
     = Some \<lparr>name = ''c1'', dsc = None, ref = None, flags = 0x01\<rparr> \<and>
   yang_print_mnode_common2 tree_h_bits empty_stream 3 (node leaf_l1\<lparr>flags := 0x01\<rparr>)
     = yang_print_mnode_common tree_h_bits empty_stream 3 (node leaf_l1\<lparr>flags := 0x01\<rparr>) \<and>
   parent (node container_c1) = None \<and>
   out (yang_print_mnode_common2 tree_h_bits empty_stream 2 (node container_c1))
     = ''    config "true";\<newline>'' \<and>
   out (yang_print_mnode_common2 tree_h_bits empty_stream 3 (node leaf_l1\<lparr>flags := 0x02\<rparr>))
     = ''      config "false";\<newline>''\<close>
  using
    yang_print_mnode_common2_config
      [of "node leaf_l1\<lparr>flags := 0x01\<rparr>" "\<lparr>name = ''c1'', dsc = None, ref = None, flags = 0x01\<rparr>"
          tree_h_bits empty_stream 3]
    yang_print_mnode_common2_config
      [of "node container_c1" "\<lparr>name = ''c1'', dsc = None, ref = None, flags = 0x01\<rparr>"
          tree_h_bits empty_stream 2]
    yang_print_mnode_common2_config
      [of "node leaf_l1\<lparr>flags := 0x02\<rparr>" "\<lparr>name = ''c1'', dsc = None, ref = None, flags = 0x01\<rparr>"
          tree_h_bits empty_stream 3]
  by (simp add: eval_simps yang_print_mnode_common_def)

text \<open>
  C4 as stated fails for a node whose config bits differ from its parent's because its own
  are unset: the leaf \<^verbatim>\<open>l1\<close> of the scenario, below the writable container \<^verbatim>\<open>c1\<close>, gets no
  config line.
\<close>

theorem yang_print_mnode_common2_config_counterexample:
  "parent (node leaf_l1) = Some \<lparr>name = ''c1'', dsc = None, ref = None, flags = 0x01\<rparr> \<and>
   0x01 AND LY_NODE_CONFIG_MASK tree_h_bits
     \<noteq> flags (node leaf_l1) AND LY_NODE_CONFIG_MASK tree_h_bits \<and>
   out (yang_print_mnode_common2 tree_h_bits empty_stream 3 (node leaf_l1)) = []"
  by (simp add: eval_simps yang_print_mnode_common2_def yang_print_mnode_common_def)

subsection \<open>C3: the prefix of a type name\<close>

text \<open>
  C3, as the code has it. On a stream without a limit \<^verbatim>\<open>yang_print_type\<close> appends a block
  that opens with \<^verbatim>\<open>type\<close> and the name of the derived type, preceded by \<^verbatim>\<open><prefix>:\<close> exactly
  when the prefix string of the type is present; the module the derived type belongs to is
  not consulted. The body is the enum entries, the base of an identity reference (with the
  prefix of the identity's module when that is not the module being printed) or empty.
\<close>

theorem yang_print_type_prefix:
  \<open>room f = None \<Longrightarrow>
     out (yang_print_type H f level m t) =
       out f @ pad (LEVEL level) INDENT @ ''type ''
         @ (case prefix t of Some p \<Rightarrow> p @ '':'' | None \<Rightarrow> []) @ name (der t) @ '' {\<newline>''
         @ (case info t of
              LY_TYPE_ENUM enums \<Rightarrow> emitted (\<lambda>f. yang_print_type_enums H f (level + 1) enums)
            | LY_TYPE_IDENT r \<Rightarrow>
                pad (LEVEL (level + 1)) INDENT @ ''base ''
                  @ (if addr m = addr (module r) then [] else mod_prefix (module r) @ '':'')
                  @ name r @ '';\<newline>''
            | LY_TYPE_OTHER \<Rightarrow> [])
         @ pad (LEVEL level) INDENT @ ''}\<newline>''\<close>
  by (simp add: yang_print_type_unbounded)

theorem yang_print_type_prefix_witness:
  \<open>room empty_stream = None \<and>
   out (yang_print_type tree_h_bits empty_stream 1 m1
          \<lparr>prefix = Some ''x'',
           info = LY_TYPE_IDENT \<lparr>name = ''id'', dsc = None, ref = None, flags = 0,
                                 module = \<lparr>addr = 2, mod_name = ''m2'', mod_prefix = ''y''\<rparr>\<rparr>,
           der = \<lparr>name = ''identityref'', dsc = None, ref = None, flags = 0,
                  module = no_module\<rparr>\<rparr>)
     = ''  type x:identityref {\<newline>    base y:id;\<newline>  }\<newline>''\<close>
  using yang_print_type_prefix [of empty_stream tree_h_bits 1 m1
          "\<lparr>prefix = Some ''x'',
            info = LY_TYPE_IDENT \<lparr>name = ''id'', dsc = None, ref = None, flags = 0,
                                  module = \<lparr>addr = 2, mod_name = ''m2'', mod_prefix = ''y''\<rparr>\<rparr>,
            der = \<lparr>name = ''identityref'', dsc = None, ref = None, flags = 0,
                   module = no_module\<rparr>\<rparr>"]
  by (simp add: eval_simps)

text \<open>
  C3 as stated fails in both directions: a type that names a typedef of the printed module
  \<^verbatim>\<open>m1\<close> through the module's own prefix is printed with the prefix, and a type without a
  prefix string whose typedef belongs to another module is printed bare.
\<close>

theorem yang_print_type_prefix_counterexample:
  \<open>out (yang_print_type tree_h_bits empty_stream 0 m1
          \<lparr>prefix = Some ''m'', info = LY_TYPE_OTHER,
           der = \<lparr>name = ''t1'', dsc = None, ref = None, flags = 0, module = m1\<rparr>\<rparr>)
     = ''type m:t1 {\<newline>}\<newline>'' \<and>
   out (yang_print_type tree_h_bits empty_stream 0 m1
          \<lparr>prefix = None, info = LY_TYPE_OTHER,
           der = \<lparr>name = ''t2'', dsc = None, ref = None, flags = 0,
                  module = \<lparr>addr = 2, mod_name = ''m2'', mod_prefix = ''y''\<rparr>\<rparr>\<rparr>)
     = ''type t2 {\<newline>}\<newline>''\<close>
  by (simp add: yang_print_type_unbounded eval_simps)

subsection \<open>C5: the key statement of a list\<close>

text \<open>
  C5. On a stream without a limit \<^verbatim>\<open>yang_print_list\<close> appends, between the common members
  of the list and its typedefs and children, one line \<^verbatim>\<open>key "..."\<close> with the names of the key
  leaves in their declared order, separated by one blank, exactly when the list has keys;
  a list without keys gets no key line.
\<close>

theorem yang_print_list_key:
  \<open>room f = None \<Longrightarrow>
     out (yang_print_list H f level (Mnode n ch)) =
       out f @ pad (LEVEL level) INDENT @ ''list '' @ name n @ '' {\<newline>''
         @ emitted (\<lambda>f. yang_print_mnode_common2 H f (level + 1) n)
         @ (if keys n = [] then []
            else pad (LEVEL (level + 1)) INDENT @ ''key "''
                   @ space_separated (map name (keys n)) @ ''";\<newline>'')
         @ concat (map (\<lambda>t. emitted (\<lambda>f. yang_print_typedef H f (level + 1) (module n) t))
                    (tpdf n))
         @ concat (map (\<lambda>x. emitted (\<lambda>f. yang_print_mnode H f (level + 1) x (mask_all H))) ch)
         @ pad (LEVEL level) INDENT @ ''}\<newline>''\<close>
proof -
  assume r: "room f = None"
  show ?thesis
    by (subst yang_print_list_step [OF _ r]) (simp_all add: yang_print_mnode_appends_all(1))
qed

theorem yang_print_list_key_witness:
  \<open>room empty_stream = None \<and>
   out (yang_print_list tree_h_bits empty_stream 0
          (Mnode \<lparr>name = ''ls'', dsc = None, ref = None, flags = 0, module = m1,
                  nodetype = 0x10, parent = None, tpdf = [], leaf_type = string_type,
                  keys = [\<lparr>name = ''k2'', dsc = None, ref = None, flags = 0\<rparr>,
                          \<lparr>name = ''k1'', dsc = None, ref = None, flags = 0\<rparr>,
                          \<lparr>name = ''k3'', dsc = None, ref = None, flags = 0\<rparr>]\<rparr> []))
     = ''list ls {\<newline>  key "k2 k1 k3";\<newline>}\<newline>'' \<and>
   out (yang_print_list tree_h_bits empty_stream 0
          (Mnode \<lparr>name = ''ls'', dsc = None, ref = None, flags = 0, module = m1,
                  nodetype = 0x10, parent = None, tpdf = [], leaf_type = string_type,
                  keys = []\<rparr> []))
     = ''list ls {\<newline>}\<newline>''\<close>
  using
    yang_print_list_key [of empty_stream tree_h_bits 0
      "\<lparr>name = ''ls'', dsc = None, ref = None, flags = 0, module = m1,
        nodetype = 0x10, parent = None, tpdf = [], leaf_type = string_type,
        keys = [\<lparr>name = ''k2'', dsc = None, ref = None, flags = 0\<rparr>,
                \<lparr>name = ''k1'', dsc = None, ref = None, flags = 0\<rparr>,
                \<lparr>name = ''k3'', dsc = None, ref = None, flags = 0\<rparr>]\<rparr>" "[]"]
    yang_print_list_key [of empty_stream tree_h_bits 0
      "\<lparr>name = ''ls'', dsc = None, ref = None, flags = 0, module = m1,
        nodetype = 0x10, parent = None, tpdf = [], leaf_type = string_type,
        keys = []\<rparr>" "[]"]
  by (simp add: eval_simps yang_print_mnode_common2_def yang_print_mnode_common_def)

subsection \<open>C6: the children of a choice\<close>

text \<open>
  C6. With the node kinds a bit each, a child below a choice is handed to its printer only
  when its kind is container, leaf, leaf-list or list; a child of any other kind, so a
  grouping (and a choice or a uses), is skipped: the stream is left as it was, and the
  choice is printed as if the child were not there. A leaf is printed by
  \<^verbatim>\<open>yang_print_leaf\<close>.
\<close>

theorem yang_print_choice_filters:
  assumes "disjoint_bits (node_kinds H)"
  shows
    "(nodetype n \<in> set (node_kinds H) \<longrightarrow>
        yang_print_mnode H f level (Mnode n ch) (mask_choice H) =
          (if nodetype n = LY_NODE_CONTAINER H then yang_print_container H f level (Mnode n ch)
           else if nodetype n = LY_NODE_LEAF H then yang_print_leaf H f level (Mnode n ch)
           else if nodetype n = LY_NODE_LEAFLIST H then yang_print_leaflist H f level (Mnode n ch)
           else if nodetype n = LY_NODE_LIST H then yang_print_list H f level (Mnode n ch)
           else f)) \<and>
     (nodetype n = LY_NODE_GROUPING H \<longrightarrow>
        yang_print_mnode H f level (Mnode n ch) (mask_choice H) = f) \<and>
     (nodetype n = LY_NODE_LEAF H \<longrightarrow>
        yang_print_mnode H f level (Mnode n ch) (mask_choice H)
          = yang_print_leaf H f level (Mnode n ch)) \<and>
     ((\<forall>c \<in> set cs. nodetype (node c) \<in> set (node_kinds H)) \<longrightarrow>
        yang_print_choice H f level (Mnode m cs) =
          yang_print_choice H f level
            (Mnode m (filter (\<lambda>c. nodetype (node c) \<in> {LY_NODE_CONTAINER H, LY_NODE_LEAF H,
                                                      LY_NODE_LEAFLIST H, LY_NODE_LIST H}) cs)))"
proof -
  note kept = choice_dispatch [OF assms]
  have ne: "distinct (node_kinds H)"
    using kinds_distinct [OF assms] by simp
  have skipped: "(\<lambda>g. yang_print_mnode H g l c (mask_choice H)) = (\<lambda>g. g)"
    if "nodetype (node c) \<in> set (node_kinds H)"
      and "nodetype (node c) \<notin> {LY_NODE_CONTAINER H, LY_NODE_LEAF H, LY_NODE_LEAFLIST H,
                                  LY_NODE_LIST H}" for l c
  proof (cases c)
    case (Mnode n' ch')
    show ?thesis
      using that kept [of n' _ l ch'] by (simp add: Mnode)
  qed
  have 4: "yang_print_choice H f level (Mnode m cs) =
      yang_print_choice H f level
        (Mnode m (filter (\<lambda>c. nodetype (node c) \<in> {LY_NODE_CONTAINER H, LY_NODE_LEAF H,
                                                  LY_NODE_LEAFLIST H, LY_NODE_LIST H}) cs))"
    if "\<forall>c \<in> set cs. nodetype (node c) \<in> set (node_kinds H)"
  proof -
    have "fold (\<lambda>sub f. yang_print_mnode H f (level + 1) sub (mask_choice H)) cs g =
        fold (\<lambda>sub f. yang_print_mnode H f (level + 1) sub (mask_choice H))
          (filter (\<lambda>c. nodetype (node c) \<in> {LY_NODE_CONTAINER H, LY_NODE_LEAF H,
                                              LY_NODE_LEAFLIST H, LY_NODE_LIST H}) cs) g" for g
      by (rule fold_skip) (use that skipped in blast)
    then show ?thesis
      by (simp only: yang_print_choice.simps Let_def)
  qed
  have 2: "yang_print_mnode H f level (Mnode n ch) (mask_choice H) = f"
    if "nodetype n = LY_NODE_GROUPING H"
    using that kept [of n f level ch] ne by (auto simp add: node_kinds_def)
  have 3: "yang_print_mnode H f level (Mnode n ch) (mask_choice H)
             = yang_print_leaf H f level (Mnode n ch)"
    if "nodetype n = LY_NODE_LEAF H"
    using that kept [of n f level ch] ne by (auto simp add: node_kinds_def)
  show ?thesis
    using kept [of n f level ch] 2 3 4 by blast
qed

theorem yang_print_choice_filters_witness:
  \<open>disjoint_bits (node_kinds tree_h_bits) \<and>
   nodetype (node grouping_g1) = LY_NODE_GROUPING tree_h_bits \<and>
   yang_print_mnode tree_h_bits empty_stream 1 grouping_g1 (mask_choice tree_h_bits)
     = empty_stream \<and>
   nodetype (node leaf_l1) = LY_NODE_LEAF tree_h_bits \<and>
   yang_print_mnode tree_h_bits empty_stream 1 leaf_l1 (mask_choice tree_h_bits)
     = yang_print_leaf tree_h_bits empty_stream 1 leaf_l1 \<and>
   yang_print_choice tree_h_bits empty_stream 1 choice_ch1
     = yang_print_choice tree_h_bits empty_stream 1 (Mnode (node choice_ch1) [leaf_l1]) \<and>
   out (yang_print_choice tree_h_bits empty_stream 1 choice_ch1)
     = ''  choice ch1 {\<newline>    leaf l1 {\<newline>      type string {\<newline>      }\<newline>    }\<newline>  }\<newline>''\<close>
  using
    yang_print_choice_filters [OF tree_h_bits_disjoint,
      where n = "node grouping_g1" and f = empty_stream and level = 1 and ch = "[]"
        and cs = "[grouping_g1, leaf_l1]" and m = "node choice_ch1"]
    yang_print_choice_filters [OF tree_h_bits_disjoint,
      where n = "node leaf_l1" and f = empty_stream and level = 1 and ch = "[]"
        and cs = "[]" and m = "node choice_ch1"]
  by (simp add: tree_h_bits_disjoint node_kinds_def grouping_g1_def choice_ch1_def eval_simps
        mask_choice_def yang_print_choice.simps yang_print_mnode.simps yang_print_leaf_def
        yang_print_mnode_common2_def yang_print_mnode_common_def yang_print_type_def)

subsection \<open>C8: the revisions\<close>

text \<open>
  C8, as the code has it. On a stream without a limit the revisions are printed one after
  the other, each in one of two forms. A revision without description and without
  reference is printed by the text printer: the keyword \<^verbatim>\<open>revision\<close> on a line of its own,
  the quoted date on the next line one level deeper, closed by \<^verbatim>\<open>";\<close> and followed by an
  empty line. A revision with a description or a reference is printed as a block:
  \<^verbatim>\<open>revision "<date>" {\<close>, the description and the reference that are present as text
  blocks, and the closing brace.
\<close>

theorem yang_print_model_revisions_forms:
  \<open>room f = None \<Longrightarrow>
     out (yang_print_model_revisions f level rs) =
       out f @ concat (map (\<lambda>r.
         if rev_dsc r = None \<and> rev_ref r = None then
           pad (LEVEL level) INDENT @ ''revision\<newline>''
             @ pad (LEVEL (level + 1)) INDENT @ ''"'' @ reindented (level + 1) (date r)
             @ ''";\<newline>\<newline>''
         else
           pad (LEVEL level) INDENT @ ''revision "'' @ date r @ ''" {\<newline>''
             @ (case rev_dsc r of
                  Some d \<Rightarrow> emitted (\<lambda>f. yang_print_text f (level + 1) ''description'' d)
                | None \<Rightarrow> [])
             @ (case rev_ref r of
                  Some d \<Rightarrow> emitted (\<lambda>f. yang_print_text f (level + 1) ''reference'' d)
                | None \<Rightarrow> [])
             @ pad (LEVEL level) INDENT @ ''}\<newline>'') rs)\<close>
proof (induction rs arbitrary: f)
  case Nil
  then show ?case by simp
next
  case (Cons r rs)
  let ?g = "yang_print_model_revisions f level [r]"
  have g: "room ?g = None \<and> out ?g = out f @ (if rev_dsc r = None \<and> rev_ref r = None then
           pad (LEVEL level) INDENT @ ''revision\<newline>''
             @ pad (LEVEL (level + 1)) INDENT @ [CHR 0x22] @ reindented (level + 1) (date r)
             @ [CHR 0x22] @ '';\<newline>\<newline>''
         else
           pad (LEVEL level) INDENT @ ''revision '' @ [CHR 0x22] @ date r @ [CHR 0x22] @ '' {\<newline>''
             @ (case rev_dsc r of
                  Some d \<Rightarrow> emitted (\<lambda>f. yang_print_text f (level + 1) ''description'' d)
                | None \<Rightarrow> [])
             @ (case rev_ref r of
                  Some d \<Rightarrow> emitted (\<lambda>f. yang_print_text f (level + 1) ''reference'' d)
                | None \<Rightarrow> [])
             @ pad (LEVEL level) INDENT @ ''}\<newline>'')"
    using Cons.prems
    by (auto simp add: Let_def fprintf_unbounded yang_print_text_unbounded emitted_def
          empty_stream_def split: option.splits)
  have "yang_print_model_revisions f level (r # rs) = yang_print_model_revisions ?g level rs"
    by (simp add: Let_def)
  then show ?case
    using Cons.IH [of ?g] g by simp
qed

theorem yang_print_model_revisions_forms_witness:
  \<open>room empty_stream = None \<and>
   out (yang_print_model_revisions empty_stream 1
          [\<lparr>date = ''2015-06-01'', rev_dsc = None, rev_ref = None\<rparr>,
           \<lparr>date = ''2015-01-01'', rev_dsc = Some ''first'', rev_ref = None\<rparr>])
     = ''  revision\<newline>    "2015-06-01";\<newline>\<newline>  revision "2015-01-01" {\<newline>    description\<newline>      "first";\<newline>\<newline>  }\<newline>''\<close>
  using yang_print_model_revisions_forms [of empty_stream 1
          "[\<lparr>date = ''2015-06-01'', rev_dsc = None, rev_ref = None\<rparr>,
            \<lparr>date = ''2015-01-01'', rev_dsc = Some ''first'', rev_ref = None\<rparr>]"]
  by (simp add: eval_simps yang_print_text_unbounded)

text \<open>
  C8 as stated fails: the form of a revision without description and reference is not a
  single line.
\<close>

theorem yang_print_model_revisions_counterexample:
  \<open>\<not> single_line (out (yang_print_model_revisions empty_stream 1
                          [\<lparr>date = ''2015-06-01'', rev_dsc = None, rev_ref = None\<rparr>]))\<close>
  by (simp add: single_line_def eval_simps yang_print_text_unbounded)

subsection \<open>C2: the revision date of an include\<close>

text \<open>
  C2 does not hold of the code. The include of the module \<open>module_inc\<close> has the revision
  date 2015-02-02, and the block printed for it carries 2014-01-01, the revision date of the
  import at the same index: the loop over the includes reads \<^verbatim>\<open>module->imp[i].rev\<close>.
\<close>

theorem yang_print_model_include_revision_date:
  \<open>inc_rev (inc module_inc ! 0) = ''2015-02-02'' \<and>
   yang_print_model tree_h_bits empty_stream module_inc =
     Inr (EXIT_SUCCESS,
          \<lparr>out = ''module m1 {\<newline>  namespace "urn:m1";\<newline>  prefix "m";\<newline>  import "ietf-a" {\<newline>    prefix\<newline>      "a";\<newline>\<newline>    revision-date\<newline>      "2014-01-01";\<newline>\<newline>  }\<newline>  include "m1-sub" {\<newline>    revision-date\<newline>      "2014-01-01";\<newline>\<newline>  }\<newline>}\<newline>'',
           room = None, error = False\<rparr>)\<close>
  by (simp add: run_simps module_inc_def cong: let_weak_cong)

subsection \<open>C1: the status of a run\<close>

text \<open>
  C1, as the code has it. \<^verbatim>\<open>yang_print_model\<close> never inspects the result of a write. For
  every module in which every include with a revision date has an import at its index
  (otherwise the C code reads past the end of the import array), there is one sequence of
  writes, which begins with the header of the module and ends with its closing brace, such
  that for every stream, whether it accepts the writes or refuses any of them, the run
  hands the stream all these writes in order and returns \<^verbatim>\<open>EXIT_SUCCESS\<close>: a refused write
  neither stops the walk nor changes the status.
\<close>

theorem yang_print_model_status:
  \<open>(\<forall>i < length (inc m). inc_rev (inc m ! i) \<noteq> [] \<longrightarrow> i < length (imp m)) \<Longrightarrow>
     \<exists>ss. \<forall>f. yang_print_model H f m =
       Inr (EXIT_SUCCESS,
            writes ((''module '' @ mod_name (self m) @ '' {\<newline>'') # ss @ [''}\<newline>'']) f)\<close>
proof -
  assume "\<forall>i < length (inc m). inc_rev (inc m ! i) \<noteq> [] \<longrightarrow> i < length (imp m)"
  then have "\<forall>j. 0 \<le> j \<longrightarrow> j < length (inc m) \<longrightarrow> inc_rev (inc m ! j) \<noteq> [] \<longrightarrow>
      j < length (imp m)"
    by simp
  from yang_print_model_includes_writer [OF this] obtain xs where
    inc: "\<forall>f. yang_print_model_includes f (0 + 1) m 0 = Inr (writes xs f)"
    by blast
  define pre where \<open>pre = (\<lambda>l f.
      let f = fprintf f (pad (LEVEL l) INDENT @ ''namespace "'' @ ns m @ ''";\<newline>'');
          f = fprintf f (pad (LEVEL l) INDENT @ ''prefix "'' @ mod_prefix (self m)
                           @ ''";\<newline>'');
          f = (if version m \<noteq> 0 then
                 fprintf f (pad (LEVEL l) INDENT @ ''yang-version "''
                              @ (if version m = 1 then ''1.0'' else ''1.1'') @ ''";\<newline>'')
               else f)
      in yang_print_model_imports f l (imp m))\<close>
  define post where \<open>post = (\<lambda>l f.
      let f = (case org m of
                 Some s \<Rightarrow> yang_print_text f l ''organization'' s
               | None \<Rightarrow> f);
          f = (case contact m of
                 Some s \<Rightarrow> yang_print_text f l ''contact'' s
               | None \<Rightarrow> f);
          f = (case module_dsc m of
                 Some s \<Rightarrow> yang_print_text f l ''description'' s
               | None \<Rightarrow> f);
          f = (case module_ref m of
                 Some s \<Rightarrow> yang_print_text f l ''reference'' s
               | None \<Rightarrow> f);
          f = yang_print_model_revisions f l (rev m);
          f = fold (\<lambda>i f. yang_print_identity H f l i) (ident m) f;
          f = fold (\<lambda>t f. yang_print_typedef H f l (self m) t) (module_tpdf m) f
      in fold (\<lambda>mnode f. yang_print_mnode H f l mnode (mask_all H)) (data m) f)\<close>
  have run: "yang_print_model H f m =
      Inr (EXIT_SUCCESS,
           fprintf (post (0 + 1) (writes xs (pre (0 + 1) (fprintf f (''module ''
             @ mod_name (self m) @ '' {\<newline>''))))) ''}\<newline>'')" for f
    unfolding yang_print_model_def pre_def post_def Let_def
    by (simp only: inc sum.case)
  have "writer (pre l)" for l
    unfolding pre_def Let_def
    by (intro writer_intros yang_print_model_imports_writer)
  then obtain ps where ps: "\<forall>f. pre (0 + 1) f = writes ps f"
    unfolding writer_def by blast
  have nodes: "writer (\<lambda>f. yang_print_mnode H f l c (mask_all H))" for c l
    using yang_print_mnode_writer_all [of H c] writer_id by blast
  have "writer (post l)" for l
    unfolding post_def Let_def
    by (intro writer_intros writer_fold yang_print_model_revisions_writer nodes
          yang_print_identity_writer yang_print_typedef_writer)
  then obtain qs where qs: "\<forall>f. post (0 + 1) f = writes qs f"
    unfolding writer_def by blast
  have "\<forall>f. yang_print_model H f m =
      Inr (EXIT_SUCCESS,
           writes ((''module '' @ mod_name (self m) @ '' {\<newline>'') # (ps @ xs @ qs) @ [''}\<newline>'']) f)"
    by (simp only: run ps qs writes_Cons_snoc writes_append simp_thms)
  then show ?thesis
    by blast
qed

theorem yang_print_model_status_witness:
  \<open>yang_print_model tree_h_bits empty_stream module_m1 =
     Inr (EXIT_SUCCESS,
          \<lparr>out = ''module m1 {\<newline>  namespace "urn:m1";\<newline>  prefix "m";\<newline>  container c1 {\<newline>    config "true";\<newline>    leaf l1 {\<newline>      type string {\<newline>      }\<newline>    }\<newline>  }\<newline>}\<newline>'',
           room = None, error = False\<rparr>)\<close>
proof -
  have m1: "\<forall>i < length (inc module_m1).
      inc_rev (inc module_m1 ! i) \<noteq> [] \<longrightarrow> i < length (imp module_m1)"
    by (simp add: module_m1_def)
  have run: \<open>out (snd (projr (yang_print_model tree_h_bits empty_stream module_m1))) =
      ''module m1 {\<newline>  namespace "urn:m1";\<newline>  prefix "m";\<newline>  container c1 {\<newline>    config "true";\<newline>    leaf l1 {\<newline>      type string {\<newline>      }\<newline>    }\<newline>  }\<newline>}\<newline>'' \<and>
    room (snd (projr (yang_print_model tree_h_bits empty_stream module_m1))) = None \<and>
    error (snd (projr (yang_print_model tree_h_bits empty_stream module_m1))) = False\<close>
    by (simp add: run_simps cong: let_weak_cong)
  from yang_print_model_status [OF m1, of tree_h_bits]
  obtain f' where "yang_print_model tree_h_bits empty_stream module_m1 = Inr (EXIT_SUCCESS, f')"
    by blast
  then show ?thesis
    using run by (cases f') simp
qed

text \<open>
  C1 as stated fails on a stream that accepts three more bytes: every write of the scenario
  is refused except the last, the closing brace of the module, which is written after the
  failures; the error indicator of the stream is set and the status is 0.
\<close>

theorem yang_print_model_status_counterexample:
  \<open>yang_print_model tree_h_bits small_stream module_m1 =
     Inr (0, \<lparr>out = ''}\<newline>'', room = Some 1, error = True\<rparr>)\<close>
  by (simp add: run_simps small_stream_def cong: let_weak_cong)

end
